theory Spec2Isabelle
  imports Complex_Main "HOL-Library.Sublist"
begin

section \<open>JavaScript numbers\<close>

text \<open>
  The simulation works on JavaScript numbers. A number is modelled as a real value or one of
  the three special values \<open>Infinity\<close>, \<open>-Infinity\<close> and \<open>NaN\<close>. Finite arithmetic is exact:
  rounding to 64 bits, overflow to infinity and the sign of zero are not modelled, except for
  the division, which rounds its quotient by a rounding given as a parameter. The value
  \<open>undefined\<close>, where it reaches an arithmetic operator, a comparison or
  \<open>Number.isFinite\<close>, behaves as \<open>NaN\<close> does and is represented by it.
\<close>

datatype jsnum = Fin real | PInf | NInf | NaN

fun jneg :: "jsnum \<Rightarrow> jsnum" where
  "jneg (Fin a) = Fin (- a)"
| "jneg PInf = NInf"
| "jneg NInf = PInf"
| "jneg NaN = NaN"

fun jadd :: "jsnum \<Rightarrow> jsnum \<Rightarrow> jsnum" where
  "jadd NaN _ = NaN"
| "jadd _ NaN = NaN"
| "jadd (Fin a) (Fin b) = Fin (a + b)"
| "jadd (Fin a) PInf = PInf"
| "jadd (Fin a) NInf = NInf"
| "jadd PInf NInf = NaN"
| "jadd NInf PInf = NaN"
| "jadd PInf _ = PInf"
| "jadd NInf _ = NInf"

definition jsub :: "jsnum \<Rightarrow> jsnum \<Rightarrow> jsnum" where
  "jsub x y = jadd x (jneg y)"

text \<open>The sign of a number that is not \<open>NaN\<close>: \<open>-1\<close>, \<open>0\<close> or \<open>1\<close>.\<close>

fun jsign :: "jsnum \<Rightarrow> int" where
  "jsign (Fin a) = (if a < 0 then - 1 else if a = 0 then 0 else 1)"
| "jsign PInf = 1"
| "jsign NInf = - 1"
| "jsign NaN = 0"

definition signed_inf :: "int \<Rightarrow> jsnum" where
  "signed_inf sg = (if sg = 0 then NaN else if 0 < sg then PInf else NInf)"

fun jmul :: "jsnum \<Rightarrow> jsnum \<Rightarrow> jsnum" where
  "jmul NaN _ = NaN"
| "jmul _ NaN = NaN"
| "jmul (Fin a) (Fin b) = Fin (a * b)"
| "jmul x y = signed_inf (jsign x * jsign y)"

text \<open>
  The division of two doubles yields the real quotient rounded to a double. The rounding
  \<open>fl\<close> (to the nearest double, to an infinity on overflow) is a parameter of the model: a
  theorem says of it what it needs. A zero divisor counts as \<open>+0\<close>.
\<close>

fun fdiv :: "(real \<Rightarrow> jsnum) \<Rightarrow> jsnum \<Rightarrow> jsnum \<Rightarrow> jsnum" where
  "fdiv fl NaN _ = NaN"
| "fdiv fl _ NaN = NaN"
| "fdiv fl (Fin a) (Fin b) = (if b = 0 then signed_inf (jsign (Fin a)) else fl (a / b))"
| "fdiv fl (Fin a) _ = Fin 0"
| "fdiv fl x (Fin b) = signed_inf (jsign x * (if b < 0 then - 1 else 1))"
| "fdiv fl _ _ = NaN"

text \<open>The comparison \<open>x < y\<close>; it is false as soon as one side is \<open>NaN\<close>.\<close>

fun jlt :: "jsnum \<Rightarrow> jsnum \<Rightarrow> bool" where
  "jlt (Fin a) (Fin b) = (a < b)"
| "jlt (Fin a) PInf = True"
| "jlt NInf (Fin b) = True"
| "jlt NInf PInf = True"
| "jlt _ _ = False"

text \<open>The comparison \<open>x <= y\<close>, used to state bounds.\<close>

fun jle :: "jsnum \<Rightarrow> jsnum \<Rightarrow> bool" where
  "jle NaN _ = False"
| "jle _ NaN = False"
| "jle x y = (x = y \<or> jlt x y)"

fun isFinite :: "jsnum \<Rightarrow> bool" where
  "isFinite (Fin a) = True"
| "isFinite _ = False"

text \<open>\<open>Math.max\<close> and \<open>Math.min\<close> of two arguments: \<open>NaN\<close> if either is.\<close>

fun Math_max :: "jsnum \<Rightarrow> jsnum \<Rightarrow> jsnum" where
  "Math_max NaN _ = NaN"
| "Math_max _ NaN = NaN"
| "Math_max x y = (if jlt x y then y else x)"

fun Math_min :: "jsnum \<Rightarrow> jsnum \<Rightarrow> jsnum" where
  "Math_min NaN _ = NaN"
| "Math_min _ NaN = NaN"
| "Math_min x y = (if jlt y x then y else x)"

text \<open>\<open>Math.round\<close> rounds to the nearest integer, halves upwards; \<open>Math.floor\<close> rounds down.\<close>

fun Math_round :: "jsnum \<Rightarrow> jsnum" where
  "Math_round (Fin a) = Fin (of_int \<lfloor>a + 1 / 2\<rfloor>)"
| "Math_round x = x"

fun Math_floor :: "jsnum \<Rightarrow> jsnum" where
  "Math_floor (Fin a) = Fin (of_int \<lfloor>a\<rfloor>)"
| "Math_floor x = x"

lemma Math_max_Fin: "Math_max (Fin a) (Fin b) = Fin (max a b)"
  by (simp add: max_def)

lemma Math_min_Fin: "Math_min (Fin a) (Fin b) = Fin (min a b)"
  by (simp add: min_def)

section \<open>Reload: the decimation count\<close>

text \<open>
  \<open>reload\<close> reads the physics timestep of the loaded model and derives the number of
  physics sub-steps per control tick:
  \<^verbatim>\<open>this.decimation = Math.max(1, Math.round(0.02 / this.timestep))\<close>.
  The literal \<open>0.02\<close> denotes the double \<open>5764607523034235 / 2^58\<close>, and the quotient is a
  double: the real quotient rounded by \<open>fl\<close>. \<open>Math.round\<close> and \<open>Math.max\<close> are exact.
\<close>

definition double_0_02 :: real where
  "double_0_02 = 5764607523034235 / 2 ^ 58"

definition reload_decimation :: "(real \<Rightarrow> jsnum) \<Rightarrow> jsnum \<Rightarrow> jsnum" where
  "reload_decimation fl timestep =
     Math_max (Fin 1) (Math_round (fdiv fl (Fin double_0_02) timestep))"

text \<open>The double that the literal \<open>0.004\<close> denotes.\<close>

definition double_0_004 :: real where
  "double_0_004 = 1152921504606847 / 2 ^ 58"

text \<open>
  C9. The decimation count is \<open>max(1, round(q))\<close> for the double quotient \<open>q\<close> of \<open>0.02\<close> by
  the timestep: for a finite positive timestep whose quotient is the finite double \<open>q\<close> it
  is \<open>max 1 \<lfloor>q + 1/2\<rfloor>\<close>. For the timestep \<open>0.004\<close> it is \<open>5\<close>: the real quotient of the two
  doubles is exactly \<open>5\<close>, which rounding leaves as it is. For every positive timestep
  (finite or infinite, also one larger than the control period), whatever the rounding
  yields, as long as it is a number, the count is at least \<open>1\<close>.
\<close>

theorem decimation_at_least_one:
  "(0 < t \<and> fl (double_0_02 / t) = Fin q
      \<longrightarrow> reload_decimation fl (Fin t) = Fin (max 1 (of_int \<lfloor>q + 1 / 2\<rfloor>)))
   \<and> (fl 5 = Fin 5 \<longrightarrow> reload_decimation fl (Fin double_0_004) = Fin 5)
   \<and> (jlt (Fin 0) ts \<and> (\<forall>v. fl v \<noteq> NaN) \<longrightarrow> jle (Fin 1) (reload_decimation fl ts))"
proof (intro conjI impI)
  assume "0 < t \<and> fl (double_0_02 / t) = Fin q"
  then show "reload_decimation fl (Fin t) = Fin (max 1 (of_int \<lfloor>q + 1 / 2\<rfloor>))"
    by (simp add: reload_decimation_def Math_max_Fin del: Math_max.simps)
next
  assume fl: "fl 5 = Fin 5"
  have "double_0_02 / double_0_004 = 5"
    by (simp add: double_0_02_def double_0_004_def)
  moreover have "double_0_004 \<noteq> 0" by (simp add: double_0_004_def)
  ultimately have "fdiv fl (Fin double_0_02) (Fin double_0_004) = Fin 5"
    using fl by simp
  then show "reload_decimation fl (Fin double_0_004) = Fin 5"
    by (simp add: reload_decimation_def)
next
  assume a: "jlt (Fin 0) ts \<and> (\<forall>v. fl v \<noteq> NaN)"
  have pos: "0 < double_0_02" by (simp add: double_0_02_def)
  show "jle (Fin 1) (reload_decimation fl ts)"
  proof (cases ts)
    case (Fin t)
    with a have t: "0 < t" by simp
    from a have "fl (double_0_02 / t) \<noteq> NaN" by simp
    then show ?thesis
      using Fin t by (cases "fl (double_0_02 / t)") (simp_all add: reload_decimation_def)
  next
    case PInf
    then show ?thesis by (simp add: reload_decimation_def)
  next
    case NInf
    with a show ?thesis by simp
  next
    case NaN
    with a show ?thesis by simp
  qed
qed

theorem decimation_at_least_one_witness:
  "(0::real) < 1 \<and> Fin (double_0_02 / 1) = Fin double_0_02
   \<and> reload_decimation Fin (Fin 1) = Fin 1
   \<and> reload_decimation Fin (Fin double_0_004) = Fin 5
   \<and> jlt (Fin 0) (Fin 1) \<and> jle (Fin 1) (reload_decimation Fin (Fin 1))"
proof -
  have f: "\<lfloor>double_0_02 + 1 / 2\<rfloor> = 0"
    by (simp add: double_0_02_def floor_eq_iff)
  from decimation_at_least_one [of 1 Fin double_0_02 "Fin 1"]
  show ?thesis by (simp add: f)
qed

section \<open>Data model of the control loop\<close>

text \<open>
  A typed array of the physics engine (\<open>qpos\<close>, \<open>qvel\<close>, \<open>ctrl\<close>, \<open>actuator_ctrlrange\<close>) is a
  list of numbers. An address read from a mapping table is \<open>None\<close> where the table has no entry
  at that index (JavaScript's \<open>undefined\<close>). Reading a typed array outside its range yields
  \<open>undefined\<close>, represented by \<open>NaN\<close>; writing outside its range changes no element.
\<close>

definition lookup_adr :: "int list \<Rightarrow> nat \<Rightarrow> int option" where
  "lookup_adr tbl i = (if i < length tbl then Some (tbl ! i) else None)"

definition in_range :: "'a list \<Rightarrow> int \<Rightarrow> bool" where
  "in_range xs a = (0 \<le> a \<and> nat a < length xs)"

definition ta_get :: "jsnum list \<Rightarrow> int option \<Rightarrow> jsnum" where
  "ta_get xs adr = (case adr of None \<Rightarrow> NaN
     | Some a \<Rightarrow> if in_range xs a then xs ! nat a else NaN)"

definition ta_set :: "jsnum list \<Rightarrow> int option \<Rightarrow> jsnum \<Rightarrow> jsnum list" where
  "ta_set xs adr v = (case adr of None \<Rightarrow> xs
     | Some a \<Rightarrow> if in_range xs a then xs[nat a := v] else xs)"

text \<open>The per-robot address table (\<open>robotJointMappings[robotIdx]\<close>).\<close>

record mapping =
  qpos_adr_policy :: "int list"
  qvel_adr_policy :: "int list"
  ctrl_adr_policy :: "int list"
  numActions :: nat
  freejoint_qpos_adr :: "int option"
  freejoint_qvel_adr :: "int option"

text \<open>The observation handed to a policy; its arrays are \<open>Float32Array\<close>s.\<close>

record policy_state =
  jointPos :: "jsnum list"
  jointVel :: "jsnum list"
  rootPos :: "jsnum list"
  rootQuat :: "jsnum list"
  rootAngVel :: "jsnum list"

text \<open>
  What a policy's \<open>step\<close> returns is not typed in the source, and the loop validates it.
  An element of a plain array is a number, \<open>null\<close> or \<open>undefined\<close> (or a hole); a
  \<open>Float32Array\<close> holds numbers only. \<open>Other truthy\<close> stands for any value that is neither an
  \<open>Array\<close> nor a \<open>Float32Array\<close> and has no indexed elements, with its truthiness.
\<close>

datatype elem = ENum jsnum | ENull | EUndefined

datatype action_value =
    AUndefined
  | ANull
  | Other bool
  | AArray "elem list"
  | AFloat32 "jsnum list"

fun truthy :: "action_value \<Rightarrow> bool" where
  "truthy AUndefined = False"
| "truthy ANull = False"
| "truthy (Other b) = b"
| "truthy (AArray es) = True"
| "truthy (AFloat32 xs) = True"

text \<open>\<open>Array.isArray(v) || v instanceof Float32Array\<close>\<close>

fun is_array :: "action_value \<Rightarrow> bool" where
  "is_array (AArray es) = True"
| "is_array (AFloat32 xs) = True"
| "is_array _ = False"

text \<open>\<open>v.length\<close> of an array value.\<close>

fun alength :: "action_value \<Rightarrow> nat" where
  "alength (AArray es) = length es"
| "alength (AFloat32 xs) = length xs"
| "alength _ = 0"

text \<open>\<open>v[i]\<close>: \<open>undefined\<close> outside the range and on a value with no elements.\<close>

fun aindex :: "action_value \<Rightarrow> nat \<Rightarrow> elem" where
  "aindex (AArray es) i = (if i < length es then es ! i else EUndefined)"
| "aindex (AFloat32 xs) i = (if i < length xs then ENum (xs ! i) else EUndefined)"
| "aindex _ i = EUndefined"

text \<open>The number an element stands for in arithmetic: \<open>null\<close> is \<open>0\<close>, \<open>undefined\<close> is \<open>NaN\<close>.\<close>

fun to_number :: "elem \<Rightarrow> jsnum" where
  "to_number (ENum x) = x"
| "to_number ENull = Fin 0"
| "to_number EUndefined = NaN"

datatype step_outcome = Raises | Returns action_value

text \<open>The physics state arrays of \<open>this.simulation\<close>.\<close>

record simulation =
  qpos :: "jsnum list"
  qvel :: "jsnum list"
  ctrl :: "jsnum list"
  qfrc_applied :: "jsnum list"

text \<open>
  The loaded model \<open>this.model\<close>: the name blob with the offset of each body's name, the
  joint tables, and the actuators' control ranges (two numbers per actuator).
\<close>

record mjmodel =
  names :: string
  name_bodyadr :: "nat list"
  nbody :: nat
  njnt :: nat
  jnt_bodyid :: "int list"
  jnt_qposadr :: "int list"
  actuator_ctrlrange :: "jsnum list option"

record pd_params =
  kp :: "jsnum list option"
  kd :: "jsnum list option"

record config =
  cfg_x :: jsnum
  cfg_y :: jsnum
  cfg_z :: jsnum
  cfg_motion :: "string option"

text \<open>
  The external capabilities. A policy runner is a value of an arbitrary type \<open>'p\<close> holding
  its internal state; its operations return the runner as they leave it. The physics engine's
  \<open>step\<close>, \<open>forward\<close> and \<open>resetData\<close> act on the simulation; \<open>drag_force\<close> stands for the
  interactive force block of a sub-step (the drag state manager and \<open>applyForce\<close>);
  \<open>fround\<close> is the rounding of a number stored in a \<open>Float32Array\<close>.
\<close>

record 'p env =
  p_step :: "'p \<Rightarrow> policy_state \<Rightarrow> step_outcome \<times> 'p"
  p_reset :: "'p \<Rightarrow> policy_state \<Rightarrow> 'p"
  has_tracking :: "'p \<Rightarrow> bool"
  has_motion :: "'p \<Rightarrow> string \<Rightarrow> bool"
  has_startMotionFromCurrent :: "'p \<Rightarrow> bool"
  startMotionFromCurrent :: "'p \<Rightarrow> string \<Rightarrow> policy_state \<Rightarrow> 'p"
  tracking_requestMotion :: "'p \<Rightarrow> string \<Rightarrow> policy_state \<Rightarrow> bool \<times> 'p"
  sim_step :: "simulation \<Rightarrow> simulation"
  sim_forward :: "simulation \<Rightarrow> simulation"
  sim_resetData :: "simulation \<Rightarrow> simulation"
  drag_force :: "simulation \<Rightarrow> simulation"
  fround :: "jsnum \<Rightarrow> jsnum"

text \<open>
  The fields of the \<open>MuJoCoDemo\<close> instance that the loop, the reset and the motion request
  use. The single-robot address tables \<open>this.numActions\<close>, \<open>this.qpos_adr_policy\<close>, ... are
  held in \<open>this_mapping\<close>; \<open>scene_file\<close> is the file \<open>/working/g1/g1.xml\<close> of the physics
  engine's file system. The decimation is a natural number (the count of sub-steps).
\<close>

record 'p demo =
  paused :: bool
  current_motion :: string
  alive :: bool
  policyRunner :: "'p option"
  policyRunners :: "'p option list"
  kpPolicy :: "jsnum list option"
  kdPolicy :: "jsnum list option"
  robotPolicyParams :: "pd_params option list"
  actionTarget :: action_value
  model :: "mjmodel option"
  data :: bool
  sim :: "simulation option"
  control_type :: string
  this_mapping :: mapping
  decimation :: nat
  robotConfigs :: "config list"
  robotPelvisBodyIds :: "nat option list"
  robotJointMappings :: "mapping option list"
  scene_file :: "string option"

text \<open>Indexing a JavaScript array of optional entries: nothing outside the range.\<close>

definition nth_opt :: "'a option list \<Rightarrow> nat \<Rightarrow> 'a option" where
  "nth_opt xs i = (if i < length xs then xs ! i else None)"

section \<open>Reading the policy state\<close>

text \<open>\<open>readPolicyState\<close>: the single-robot observation, read through \<open>this\<close>'s own tables.\<close>

definition readPolicyState :: "'p env \<Rightarrow> 'p demo \<Rightarrow> simulation \<Rightarrow> policy_state" where
  "readPolicyState e s sm =
     (let m = this_mapping s;
          rd = (\<lambda>arr a. fround e (ta_get arr a)) in
      \<lparr> jointPos = map (\<lambda>i. rd (qpos sm) (lookup_adr (qpos_adr_policy m) i)) [0..<numActions m],
        jointVel = map (\<lambda>i. rd (qvel sm) (lookup_adr (qvel_adr_policy m) i)) [0..<numActions m],
        rootPos = map (\<lambda>k. rd (qpos sm) (Some k)) [0, 1, 2],
        rootQuat = map (\<lambda>k. rd (qpos sm) (Some k)) [3, 4, 5, 6],
        rootAngVel = map (\<lambda>k. rd (qvel sm) (Some k)) [3, 4, 5] \<rparr>)"

text \<open>
  \<open>readPolicyStateForRobot\<close>: the observation of one robot, read through its mapping; without
  a mapping it falls back to \<open>readPolicyState\<close>. A missing free-joint address counts as \<open>0\<close>.
\<close>

definition readPolicyStateForRobot ::
  "'p env \<Rightarrow> 'p demo \<Rightarrow> simulation \<Rightarrow> nat \<Rightarrow> policy_state" where
  "readPolicyStateForRobot e s sm robotIndex =
     (case nth_opt (robotJointMappings s) robotIndex of
        None \<Rightarrow> readPolicyState e s sm
      | Some m \<Rightarrow>
          (let rd = (\<lambda>arr a. fround e (ta_get arr a));
               freejointQposAdr = (case freejoint_qpos_adr m of None \<Rightarrow> 0 | Some a \<Rightarrow> a);
               freejointQvelAdr = (case freejoint_qvel_adr m of None \<Rightarrow> 0 | Some a \<Rightarrow> a) in
           \<lparr> jointPos = map (\<lambda>i. rd (qpos sm) (lookup_adr (qpos_adr_policy m) i)) [0..<numActions m],
             jointVel = map (\<lambda>i. rd (qvel sm) (lookup_adr (qvel_adr_policy m) i)) [0..<numActions m],
             rootPos = map (\<lambda>k. rd (qpos sm) (Some (freejointQposAdr + k))) [0, 1, 2],
             rootQuat = map (\<lambda>k. rd (qpos sm) (Some (freejointQposAdr + k))) [3, 4, 5, 6],
             rootAngVel = map (\<lambda>k. rd (qvel sm) (Some (freejointQvelAdr + k))) [3, 4, 5] \<rparr>))"

section \<open>The control phase of a sub-step\<close>

text \<open>
  Both branches of the sub-step compute the command of one degree of freedom by the same
  lines: the torque \<open>kp * (targetJpos - qpos[qposAdr]) + kd * (0 - qvel[qvelAdr])\<close>, clamped by
  \<open>Math.min(Math.max(ctrlValue, min), max)\<close> when the model has a control-range array long
  enough for \<open>ctrlAdr\<close> whose two entries are finite with \<open>min < max\<close>.
\<close>

definition pd_torque :: "simulation \<Rightarrow> jsnum \<Rightarrow> jsnum \<Rightarrow> jsnum \<Rightarrow> int option \<Rightarrow> int option \<Rightarrow> jsnum" where
  "pd_torque sm kpv kdv targetJpos qposAdr qvelAdr =
     jadd (jmul kpv (jsub targetJpos (ta_get (qpos sm) qposAdr)))
          (jmul kdv (jsub (Fin 0) (ta_get (qvel sm) qvelAdr)))"

definition ctrl_value :: "mjmodel option \<Rightarrow> jsnum \<Rightarrow> int option \<Rightarrow> jsnum" where
  "ctrl_value mdl torque ctrlAdr =
     (case (case mdl of None \<Rightarrow> None | Some m \<Rightarrow> actuator_ctrlrange m) of
        None \<Rightarrow> torque
      | Some ctrlRange \<Rightarrow>
          (case ctrlAdr of
             None \<Rightarrow> torque
           | Some a \<Rightarrow>
               if (a + 1) * 2 \<le> int (length ctrlRange) then
                 (let mn = ta_get ctrlRange (Some (a * 2));
                      mx = ta_get ctrlRange (Some (a * 2 + 1)) in
                  if isFinite mn \<and> isFinite mx \<and> jlt mn mx
                  then Math_min (Math_max torque mn) mx else torque)
               else torque))"

text \<open>\<open>arr ? arr[i] : 0.0\<close> for a gain array.\<close>

definition gain_at :: "jsnum list option \<Rightarrow> nat \<Rightarrow> jsnum" where
  "gain_at arr i = (case arr of None \<Rightarrow> Fin 0
     | Some xs \<Rightarrow> if i < length xs then xs ! i else NaN)"

text \<open>\<open>robotParams?.kp ?? this.kpPolicy\<close> and the same for \<open>kd\<close>.\<close>

definition robot_kp :: "'p demo \<Rightarrow> nat \<Rightarrow> jsnum list option" where
  "robot_kp s robotIdx = (case nth_opt (robotPolicyParams s) robotIdx of
       None \<Rightarrow> kpPolicy s
     | Some ps \<Rightarrow> (case kp ps of None \<Rightarrow> kpPolicy s | Some arr \<Rightarrow> Some arr))"

definition robot_kd :: "'p demo \<Rightarrow> nat \<Rightarrow> jsnum list option" where
  "robot_kd s robotIdx = (case nth_opt (robotPolicyParams s) robotIdx of
       None \<Rightarrow> kdPolicy s
     | Some ps \<Rightarrow> (case kd ps of None \<Rightarrow> kdPolicy s | Some arr \<Rightarrow> Some arr))"

text \<open>
  The body of the multi-robot loop over \<open>i\<close>: an element that is \<open>undefined\<close> or \<open>null\<close> is
  replaced by the target \<open>0.0\<close>.
\<close>

definition multi_target :: "action_value \<Rightarrow> nat \<Rightarrow> jsnum" where
  "multi_target a i = (case aindex a i of ENum v \<Rightarrow> v | ENull \<Rightarrow> Fin 0 | EUndefined \<Rightarrow> Fin 0)"

definition multi_write ::
  "'p demo \<Rightarrow> nat \<Rightarrow> mapping \<Rightarrow> action_value \<Rightarrow> nat \<Rightarrow> simulation \<Rightarrow> simulation" where
  "multi_write s robotIdx m a i sm =
     (let qposAdr = lookup_adr (qpos_adr_policy m) i;
          qvelAdr = lookup_adr (qvel_adr_policy m) i;
          ctrlAdr = lookup_adr (ctrl_adr_policy m) i;
          torque = pd_torque sm (gain_at (robot_kp s robotIdx) i) (gain_at (robot_kd s robotIdx) i)
                     (multi_target a i) qposAdr qvelAdr
      in sm\<lparr>ctrl := ta_set (ctrl sm) ctrlAdr (ctrl_value (model s) torque ctrlAdr)\<rparr>)"

text \<open>
  One round of the loop over the robots: a robot without a mapping, without an action target,
  with a target that is not an array, or with one of the wrong length is skipped.
\<close>

definition multi_robot :: "'p demo \<Rightarrow> action_value list \<Rightarrow> nat \<Rightarrow> simulation \<Rightarrow> simulation" where
  "multi_robot s actionTargets robotIdx sm =
     (case nth_opt (robotJointMappings s) robotIdx of
        None \<Rightarrow> sm
      | Some m \<Rightarrow>
          (let a = (if robotIdx < length actionTargets then actionTargets ! robotIdx else AUndefined) in
           if \<not> truthy a then sm
           else if \<not> is_array a then sm
           else if alength a \<noteq> numActions m then sm
           else fold (multi_write s robotIdx m a) [0..<numActions m] sm))"

text \<open>The body of the single-robot loop: without an action target the target is \<open>0.0\<close>.\<close>

definition single_write :: "'p demo \<Rightarrow> nat \<Rightarrow> simulation \<Rightarrow> simulation" where
  "single_write s i sm =
     (let m = this_mapping s;
          qpos_adr = lookup_adr (qpos_adr_policy m) i;
          qvel_adr = lookup_adr (qvel_adr_policy m) i;
          ctrl_adr = lookup_adr (ctrl_adr_policy m) i;
          targetJpos = (if truthy (actionTarget s) then to_number (aindex (actionTarget s) i)
                        else Fin 0);
          torque = pd_torque sm (gain_at (kpPolicy s) i) (gain_at (kdPolicy s) i)
                     targetJpos qpos_adr qvel_adr
      in sm\<lparr>ctrl := ta_set (ctrl sm) ctrl_adr (ctrl_value (model s) torque ctrl_adr)\<rparr>)"

definition isMultiRobot :: "'p demo \<Rightarrow> bool" where
  "isMultiRobot s = (1 < length (robotJointMappings s))"

definition control_phase :: "'p demo \<Rightarrow> action_value list \<Rightarrow> simulation \<Rightarrow> simulation" where
  "control_phase s actionTargets sm =
     (if control_type s = ''joint_position'' then
        (if isMultiRobot s
         then fold (multi_robot s actionTargets) [0..<length (robotJointMappings s)] sm
         else fold (single_write s) [0..<numActions (this_mapping s)] sm)
      else sm)"

text \<open>
  A sub-step: the control phase, the applied-force buffer set to zero, the interactive force,
  one physics step.
\<close>

definition substep :: "'p env \<Rightarrow> 'p demo \<Rightarrow> action_value list \<Rightarrow> simulation \<Rightarrow> simulation" where
  "substep e s actionTargets sm =
     (let sm1 = control_phase s actionTargets sm;
          sm2 = sm1\<lparr>qfrc_applied := map (\<lambda>_. Fin 0) (qfrc_applied sm1)\<rparr>
      in sim_step e (drag_force e sm2))"

definition substeps :: "'p env \<Rightarrow> 'p demo \<Rightarrow> action_value list \<Rightarrow> simulation \<Rightarrow> simulation" where
  "substeps e s actionTargets sm = (substep e s actionTargets ^^ decimation s) sm"

section \<open>Inference and the tick\<close>

text \<open>
  The multi-robot inference loop, inside its \<open>try\<close> block. It returns whether a policy
  raised, the policy runners as the calls left them, and the array \<open>actionTargets\<close> (an entry
  never assigned is \<open>undefined\<close>). A robot without a runner is skipped; a result that is
  falsy, not an array or empty is logged and not stored. An exception leaves the loop at once.
\<close>

fun infer_multi ::
  "'p env \<Rightarrow> 'p demo \<Rightarrow> simulation \<Rightarrow> nat list \<Rightarrow> 'p option list \<Rightarrow> action_value list
     \<Rightarrow> bool \<times> 'p option list \<times> action_value list" where
  "infer_multi e s sm [] runners actionTargets = (False, runners, actionTargets)"
| "infer_multi e s sm (robotIdx # rest) runners actionTargets =
     (case nth_opt runners robotIdx of
        None \<Rightarrow> infer_multi e s sm rest runners actionTargets
      | Some p \<Rightarrow>
          (case p_step e p (readPolicyStateForRobot e s sm robotIdx) of
             (Raises, p') \<Rightarrow> (True, runners[robotIdx := Some p'], actionTargets)
           | (Returns a, p') \<Rightarrow>
               if \<not> truthy a \<or> \<not> is_array a \<or> alength a = 0
               then infer_multi e s sm rest (runners[robotIdx := Some p']) actionTargets
               else infer_multi e s sm rest (runners[robotIdx := Some p'])
                      (actionTargets[robotIdx := a])))"

definition hasPolicyRunner :: "'p demo \<Rightarrow> bool" where
  "hasPolicyRunner s =
     (if isMultiRobot s then 0 < length (policyRunners s) else policyRunner s \<noteq> None)"

text \<open>
  One round of the \<open>while (this.alive)\<close> loop. When the loop is paused or nothing is loaded it
  only paces. Otherwise the policies are asked for their targets; an exception sets
  \<open>alive = false\<close> and leaves the loop before any sub-step; else the sub-steps run. The
  snapshot for the renderer, the rate measurement and the pacing sleep are not part of the
  model.
\<close>

definition tick :: "'p env \<Rightarrow> 'p demo \<Rightarrow> 'p demo" where
  "tick e s =
     (case sim s of
        None \<Rightarrow> s
      | Some sm \<Rightarrow>
          if \<not> paused s \<and> model s \<noteq> None \<and> data s \<and> hasPolicyRunner s then
            (if isMultiRobot s then
               (case infer_multi e s sm [0..<length (robotJointMappings s)] (policyRunners s)
                       (replicate (length (robotJointMappings s)) AUndefined) of
                  (True, runners, actionTargets) \<Rightarrow> s\<lparr>alive := False, policyRunners := runners\<rparr>
                | (False, runners, actionTargets) \<Rightarrow>
                    s\<lparr>policyRunners := runners, actionTarget := actionTargets ! 0,
                      sim := Some (substeps e s actionTargets sm)\<rparr>)
             else
               (case policyRunner s of
                  None \<Rightarrow> s
                | Some p \<Rightarrow>
                    (case p_step e p (readPolicyState e s sm) of
                       (Raises, p') \<Rightarrow> s\<lparr>alive := False, policyRunner := Some p'\<rparr>
                     | (Returns a, p') \<Rightarrow>
                         (let s1 = s\<lparr>policyRunner := Some p', actionTarget := a\<rparr> in
                          s1\<lparr>sim := Some (substeps e s1 [a] sm)\<rparr>))))
          else s)"

text \<open>
  \<open>main_loop\<close>: it returns at once when no policy is attached; else it runs ticks while
  \<open>alive\<close> holds. The loop need not end, so the model counts rounds: \<open>run_loop e n\<close> runs at
  most \<open>n\<close> rounds.
\<close>

fun run_loop :: "'p env \<Rightarrow> nat \<Rightarrow> 'p demo \<Rightarrow> 'p demo" where
  "run_loop e 0 s = s"
| "run_loop e (Suc n) s = (if alive s then run_loop e n (tick e s) else s)"

definition main_loop :: "'p env \<Rightarrow> nat \<Rightarrow> 'p demo \<Rightarrow> 'p demo" where
  "main_loop e n s =
     (if policyRunner s = None \<and> policyRunners s = [] then s else run_loop e n s)"

section \<open>The command written for one degree of freedom\<close>

text \<open>
  The claim speaks of the actuator's declared control range at an address: the two entries
  of \<open>actuator_ctrlrange\<close> for that actuator (\<open>undefined\<close>, here \<open>NaN\<close>, where the model has
  none), and of clamping a value into a range.
\<close>

definition declared_range :: "mjmodel option \<Rightarrow> int \<Rightarrow> jsnum \<times> jsnum" where
  "declared_range mdl a =
     (case (case mdl of None \<Rightarrow> None | Some m \<Rightarrow> actuator_ctrlrange m) of
        None \<Rightarrow> (NaN, NaN)
      | Some cr \<Rightarrow> (ta_get cr (Some (2 * a)), ta_get cr (Some (2 * a + 1))))"

definition clamp_into :: "jsnum \<Rightarrow> jsnum \<Rightarrow> jsnum \<Rightarrow> jsnum" where
  "clamp_into lo hi v = (if jlt v lo then lo else if jlt hi v then hi else v)"

definition range_declared :: "mjmodel option \<Rightarrow> int \<Rightarrow> bool" where
  "range_declared mdl a =
     (isFinite (fst (declared_range mdl a)) \<and> isFinite (snd (declared_range mdl a))
      \<and> jlt (fst (declared_range mdl a)) (snd (declared_range mdl a)))"

lemma clamp_code:
  "isFinite lo \<Longrightarrow> isFinite hi \<Longrightarrow> jlt lo hi \<Longrightarrow> Math_min (Math_max v lo) hi = clamp_into lo hi v"
  by (cases lo; cases hi; cases v) (auto simp: clamp_into_def)

lemma clamp_bounds:
  "isFinite lo \<Longrightarrow> isFinite hi \<Longrightarrow> jlt lo hi \<Longrightarrow> v \<noteq> NaN \<Longrightarrow>
   jle lo (clamp_into lo hi v) \<and> jle (clamp_into lo hi v) hi"
  by (cases lo; cases hi; cases v) (auto simp: clamp_into_def)

lemma ctrl_value_spec:
  "ctrl_value mdl torque (Some a) =
     (if range_declared mdl a
      then clamp_into (fst (declared_range mdl a)) (snd (declared_range mdl a)) torque
      else torque)"
proof (cases "case mdl of None \<Rightarrow> None | Some m \<Rightarrow> actuator_ctrlrange m")
  case None
  then show ?thesis by (simp add: ctrl_value_def range_declared_def declared_range_def)
next
  case (Some cr)
  show ?thesis
  proof (cases "(a + 1) * 2 \<le> int (length cr)")
    case True
    then show ?thesis using Some
      by (auto simp: ctrl_value_def range_declared_def declared_range_def Let_def clamp_code mult.commute)
  next
    case False
    then have "ta_get cr (Some (2 * a + 1)) = NaN"
      by (auto simp: ta_get_def in_range_def)
    then show ?thesis using Some False
      by (simp add: ctrl_value_def range_declared_def declared_range_def)
  qed
qed


definition apply_writes :: "(int option \<times> jsnum) list \<Rightarrow> jsnum list \<Rightarrow> jsnum list" where
  "apply_writes ws c = fold (\<lambda>w c'. ta_set c' (fst w) (snd w)) ws c"

lemma length_ta_set [simp]: "length (ta_set c a v) = length c"
  by (simp add: ta_set_def split: option.splits)

lemma in_range_ta_set [simp]: "in_range (ta_set c b w) a = in_range c a"
  by (simp add: in_range_def)

lemma ta_set_same: "in_range c a \<Longrightarrow> ta_set c (Some a) v ! nat a = v"
  by (simp add: ta_set_def in_range_def)

lemma ta_set_other: "b \<noteq> Some a \<Longrightarrow> in_range c a \<Longrightarrow> ta_set c b v ! nat a = c ! nat a"
proof (cases b)
  case None
  then show ?thesis by (simp add: ta_set_def)
next
  case (Some k)
  assume "b \<noteq> Some a" "in_range c a"
  with Some have "in_range c k \<Longrightarrow> nat k \<noteq> nat a"
    by (auto simp: in_range_def)
  with Some show ?thesis by (auto simp: ta_set_def)
qed

lemma apply_writes_Nil [simp]: "apply_writes [] c = c"
  by (simp add: apply_writes_def)

lemma apply_writes_Cons [simp]: "apply_writes (w # ws) c = apply_writes ws (ta_set c (fst w) (snd w))"
  by (simp add: apply_writes_def)

lemma apply_writes_append [simp]: "apply_writes (ws @ ws') c = apply_writes ws' (apply_writes ws c)"
  by (simp add: apply_writes_def)

lemma length_apply_writes [simp]: "length (apply_writes ws c) = length c"
  by (induction ws arbitrary: c) auto

lemma apply_writes_untouched:
  "Some a \<notin> fst ` set ws \<Longrightarrow> in_range c a \<Longrightarrow> apply_writes ws c ! nat a = c ! nat a"
proof (induction ws arbitrary: c)
  case Nil
  then show ?case by simp
next
  case (Cons w ws)
  then have "fst w \<noteq> Some a" "Some a \<notin> fst ` set ws" by auto
  with Cons show ?case by (simp add: ta_set_other)
qed

lemma apply_writes_written:
  "(Some a, v) \<in> set ws \<Longrightarrow> distinct (map fst ws) \<Longrightarrow> in_range c a \<Longrightarrow>
   apply_writes ws c ! nat a = v"
proof (induction ws arbitrary: c)
  case Nil
  then show ?case by simp
next
  case (Cons w ws)
  show ?case
  proof (cases "w = (Some a, v)")
    case True
    with Cons.prems have "Some a \<notin> fst ` set ws" by auto
    with True Cons.prems show ?thesis
      by (simp add: apply_writes_untouched ta_set_same)
  next
    case False
    with Cons.prems have "(Some a, v) \<in> set ws" by auto
    with Cons show ?thesis by simp
  qed
qed

text \<open>The writes of one robot, computed on the state the control phase starts from.\<close>

definition multi_value :: "'p demo \<Rightarrow> nat \<Rightarrow> mapping \<Rightarrow> action_value \<Rightarrow> simulation \<Rightarrow> nat \<Rightarrow> jsnum" where
  "multi_value s r m a sm i =
     ctrl_value (model s)
       (pd_torque sm (gain_at (robot_kp s r) i) (gain_at (robot_kd s r) i) (multi_target a i)
          (lookup_adr (qpos_adr_policy m) i) (lookup_adr (qvel_adr_policy m) i))
       (lookup_adr (ctrl_adr_policy m) i)"

lemma pd_torque_cong:
  "qpos sm = qpos sm' \<Longrightarrow> qvel sm = qvel sm' \<Longrightarrow> pd_torque sm a b c d e = pd_torque sm' a b c d e"
  by (simp add: pd_torque_def)

lemma multi_write_frame [simp]:
  "qpos (multi_write s r m a i sm) = qpos sm" "qvel (multi_write s r m a i sm) = qvel sm"
  "qfrc_applied (multi_write s r m a i sm) = qfrc_applied sm"
  by (simp_all add: multi_write_def Let_def)

lemma multi_write_ctrl:
  "ctrl (multi_write s r m a i sm) =
     ta_set (ctrl sm) (lookup_adr (ctrl_adr_policy m) i) (multi_value s r m a sm i)"
  by (simp add: multi_write_def multi_value_def Let_def)

lemma multi_value_cong:
  "qpos sm = qpos sm' \<Longrightarrow> qvel sm = qvel sm' \<Longrightarrow> multi_value s r m a sm i = multi_value s r m a sm' i"
  by (simp add: multi_value_def pd_torque_cong [of sm sm'])

lemma fold_multi_write:
  "qpos (fold (multi_write s r m a) is sm) = qpos sm
   \<and> qvel (fold (multi_write s r m a) is sm) = qvel sm
   \<and> qfrc_applied (fold (multi_write s r m a) is sm) = qfrc_applied sm
   \<and> ctrl (fold (multi_write s r m a) is sm) =
       apply_writes (map (\<lambda>i. (lookup_adr (ctrl_adr_policy m) i, multi_value s r m a sm i)) is) (ctrl sm)"
proof (induction "is" arbitrary: sm)
  case Nil
  then show ?case by simp
next
  case (Cons i "is")
  have "multi_value s r m a (multi_write s r m a i sm) j = multi_value s r m a sm j" for j
    by (rule multi_value_cong) simp_all
  with Cons [of "multi_write s r m a i sm"] show ?case
    by (simp add: multi_write_ctrl)
qed

definition target_of :: "action_value list \<Rightarrow> nat \<Rightarrow> action_value" where
  "target_of ts r = (if r < length ts then ts ! r else AUndefined)"

definition robot_writes :: "'p demo \<Rightarrow> action_value list \<Rightarrow> simulation \<Rightarrow> nat \<Rightarrow> (int option \<times> jsnum) list" where
  "robot_writes s ts sm r =
     (case nth_opt (robotJointMappings s) r of
        None \<Rightarrow> []
      | Some m \<Rightarrow>
          if truthy (target_of ts r) \<and> is_array (target_of ts r) \<and> alength (target_of ts r) = numActions m
          then map (\<lambda>i. (lookup_adr (ctrl_adr_policy m) i, multi_value s r m (target_of ts r) sm i))
                 [0..<numActions m]
          else [])"

lemma multi_robot_effect:
  "qpos (multi_robot s ts r sm) = qpos sm
   \<and> qvel (multi_robot s ts r sm) = qvel sm
   \<and> qfrc_applied (multi_robot s ts r sm) = qfrc_applied sm
   \<and> ctrl (multi_robot s ts r sm) = apply_writes (robot_writes s ts sm r) (ctrl sm)"
  by (simp add: multi_robot_def robot_writes_def target_of_def fold_multi_write Let_def
      split: option.splits)

lemma robot_writes_cong:
  "qpos sm = qpos sm' \<Longrightarrow> qvel sm = qvel sm' \<Longrightarrow> robot_writes s ts sm r = robot_writes s ts sm' r"
  by (simp add: robot_writes_def multi_value_cong [of sm sm'] split: option.splits)

lemma fold_multi_robot:
  "qpos (fold (multi_robot s ts) rs sm) = qpos sm
   \<and> qvel (fold (multi_robot s ts) rs sm) = qvel sm
   \<and> qfrc_applied (fold (multi_robot s ts) rs sm) = qfrc_applied sm
   \<and> ctrl (fold (multi_robot s ts) rs sm) =
       apply_writes (concat (map (robot_writes s ts sm) rs)) (ctrl sm)"
proof (induction rs arbitrary: sm)
  case Nil
  then show ?case by simp
next
  case (Cons r rs)
  have "robot_writes s ts (multi_robot s ts r sm) r' = robot_writes s ts sm r'" for r'
    by (rule robot_writes_cong) (simp_all add: multi_robot_effect)
  with Cons [of "multi_robot s ts r sm"] show ?case
    by (simp add: multi_robot_effect)
qed


definition single_value :: "'p demo \<Rightarrow> simulation \<Rightarrow> nat \<Rightarrow> jsnum" where
  "single_value s sm i =
     ctrl_value (model s)
       (pd_torque sm (gain_at (kpPolicy s) i) (gain_at (kdPolicy s) i)
          (if truthy (actionTarget s) then to_number (aindex (actionTarget s) i) else Fin 0)
          (lookup_adr (qpos_adr_policy (this_mapping s)) i)
          (lookup_adr (qvel_adr_policy (this_mapping s)) i))
       (lookup_adr (ctrl_adr_policy (this_mapping s)) i)"

lemma single_write_frame [simp]:
  "qpos (single_write s i sm) = qpos sm" "qvel (single_write s i sm) = qvel sm"
  "qfrc_applied (single_write s i sm) = qfrc_applied sm"
  by (simp_all add: single_write_def Let_def)

lemma single_write_ctrl:
  "ctrl (single_write s i sm) =
     ta_set (ctrl sm) (lookup_adr (ctrl_adr_policy (this_mapping s)) i) (single_value s sm i)"
  by (simp add: single_write_def single_value_def Let_def)

lemma single_value_cong:
  "qpos sm = qpos sm' \<Longrightarrow> qvel sm = qvel sm' \<Longrightarrow> single_value s sm i = single_value s sm' i"
  by (simp add: single_value_def pd_torque_cong [of sm sm'])

lemma fold_single_write:
  "qpos (fold (single_write s) is sm) = qpos sm
   \<and> qvel (fold (single_write s) is sm) = qvel sm
   \<and> qfrc_applied (fold (single_write s) is sm) = qfrc_applied sm
   \<and> ctrl (fold (single_write s) is sm) =
       apply_writes (map (\<lambda>i. (lookup_adr (ctrl_adr_policy (this_mapping s)) i, single_value s sm i)) is)
         (ctrl sm)"
proof (induction "is" arbitrary: sm)
  case Nil
  then show ?case by simp
next
  case (Cons i "is")
  have "single_value s (single_write s i sm) j = single_value s sm j" for j
    by (rule single_value_cong) simp_all
  with Cons [of "single_write s i sm"] show ?case
    by (simp add: single_write_ctrl)
qed

definition mapping_addresses :: "mapping \<Rightarrow> int option list" where
  "mapping_addresses m = map (lookup_adr (ctrl_adr_policy m)) [0..<numActions m]"

definition ctrl_addresses :: "'p demo \<Rightarrow> int option list" where
  "ctrl_addresses s =
     (if isMultiRobot s
      then concat (map (\<lambda>mo. case mo of None \<Rightarrow> [] | Some m \<Rightarrow> mapping_addresses m)
             (robotJointMappings s))
      else mapping_addresses (this_mapping s))"

lemma distinct_concat_sub:
  "distinct (concat (map f xs)) \<Longrightarrow> \<forall>x \<in> set xs. g x = f x \<or> g x = [] \<Longrightarrow>
   distinct (concat (map g xs))"
proof (induction xs)
  case Nil
  then show ?case by simp
next
  case (Cons x xs)
  have sub: "set (concat (map g xs)) \<subseteq> set (concat (map f xs))"
    using Cons.prems(2) by fastforce
  from Cons have "distinct (concat (map g xs))" by simp
  moreover have "g x = f x \<or> g x = []" using Cons.prems(2) by simp
  moreover have "set (f x) \<inter> set (concat (map g xs)) = {}"
    using Cons.prems(1) sub by auto
  moreover have "distinct (f x)" using Cons.prems(1) by simp
  ultimately show ?case by auto
qed

lemma fst_robot_writes:
  "map fst (robot_writes s ts sm r) =
     (case nth_opt (robotJointMappings s) r of None \<Rightarrow> [] | Some m \<Rightarrow> mapping_addresses m)
   \<or> map fst (robot_writes s ts sm r) = []"
  by (simp add: robot_writes_def mapping_addresses_def comp_def split: option.splits)

lemma distinct_all_writes:
  assumes "isMultiRobot s" "distinct (ctrl_addresses s)"
  shows "distinct (map fst (concat (map (robot_writes s ts sm) [0..<length (robotJointMappings s)])))"
proof -
  let ?f = "\<lambda>r. case nth_opt (robotJointMappings s) r of None \<Rightarrow> [] | Some m \<Rightarrow> mapping_addresses m"
  have "map ?f [0..<length (robotJointMappings s)]
        = map (\<lambda>mo. case mo of None \<Rightarrow> [] | Some m \<Rightarrow> mapping_addresses m) (robotJointMappings s)"
    by (rule nth_equalityI) (simp_all add: nth_opt_def)
  with assms have "distinct (concat (map ?f [0..<length (robotJointMappings s)]))"
    by (simp add: ctrl_addresses_def)
  then have "distinct (concat (map (\<lambda>r. map fst (robot_writes s ts sm r)) [0..<length (robotJointMappings s)]))"
    by (rule distinct_concat_sub) (use fst_robot_writes in blast)
  then show ?thesis by (simp add: map_concat comp_def)
qed


definition pd_law :: "jsnum \<Rightarrow> jsnum \<Rightarrow> jsnum \<Rightarrow> jsnum \<Rightarrow> jsnum \<Rightarrow> jsnum" where
  "pd_law gp gd target pos vel = jadd (jmul gp (jsub target pos)) (jmul gd (jsub (Fin 0) vel))"

definition commanded :: "mjmodel option \<Rightarrow> int \<Rightarrow> jsnum \<Rightarrow> jsnum" where
  "commanded mdl adr torque =
     (if range_declared mdl adr
      then clamp_into (fst (declared_range mdl adr)) (snd (declared_range mdl adr)) torque
      else torque)"

lemma control_phase_multi_ctrl:
  assumes "control_type s = ''joint_position''" "isMultiRobot s"
  shows "ctrl (control_phase s ts sm) =
     apply_writes (concat (map (robot_writes s ts sm) [0..<length (robotJointMappings s)])) (ctrl sm)"
  using assms by (simp add: control_phase_def fold_multi_robot)

lemma control_phase_single_ctrl:
  assumes "control_type s = ''joint_position''" "\<not> isMultiRobot s"
  shows "ctrl (control_phase s ts sm) =
     apply_writes (map (\<lambda>i. (lookup_adr (ctrl_adr_policy (this_mapping s)) i, single_value s sm i))
        [0..<numActions (this_mapping s)]) (ctrl sm)"
  using assms by (simp add: control_phase_def fold_single_write)

lemma multi_value_spec:
  assumes "aindex a i = ENum t" "lookup_adr (ctrl_adr_policy m) i = Some adr"
  shows "multi_value s r m a sm i =
     commanded (model s) adr
       (pd_law (gain_at (robot_kp s r) i) (gain_at (robot_kd s r) i) t
          (ta_get (qpos sm) (lookup_adr (qpos_adr_policy m) i))
          (ta_get (qvel sm) (lookup_adr (qvel_adr_policy m) i)))"
  using assms
  by (simp add: multi_value_def ctrl_value_spec commanded_def pd_law_def pd_torque_def multi_target_def)

lemma single_value_spec:
  assumes "is_array (actionTarget s)" "aindex (actionTarget s) i = ENum t"
    "lookup_adr (ctrl_adr_policy (this_mapping s)) i = Some adr"
  shows "single_value s sm i =
     commanded (model s) adr
       (pd_law (gain_at (kpPolicy s) i) (gain_at (kdPolicy s) i) t
          (ta_get (qpos sm) (lookup_adr (qpos_adr_policy (this_mapping s)) i))
          (ta_get (qvel sm) (lookup_adr (qvel_adr_policy (this_mapping s)) i)))"
proof -
  from assms(1) have "truthy (actionTarget s)" by (cases "actionTarget s") auto
  with assms show ?thesis
    by (simp add: single_value_def ctrl_value_spec commanded_def pd_law_def pd_torque_def)
qed

lemma commanded_bounds:
  "range_declared mdl adr \<Longrightarrow> torque \<noteq> NaN \<Longrightarrow>
   jle (fst (declared_range mdl adr)) (commanded mdl adr torque)
   \<and> jle (commanded mdl adr torque) (snd (declared_range mdl adr))"
  by (simp add: commanded_def range_declared_def clamp_bounds)

text \<open>
  C1. In joint-position control, for a robot (in multi-robot mode robot \<open>r\<close> with mapping \<open>m\<close>
  and target \<open>ts ! r\<close>; in single-robot mode \<open>this\<close>'s own tables and \<open>actionTarget\<close>) and a
  degree of freedom \<open>i\<close> whose action target is an array of length \<open>numActions\<close> with the
  number \<open>t\<close> at \<open>i\<close>: after the control phase of a sub-step the \<open>ctrl\<close> array holds, at the
  mapped address, the torque \<open>kp[i] * (t - qpos[qpos_adr[i]]) + kd[i] * (0 - qvel[qvel_adr[i]])\<close>,
  clamped into the declared range exactly when both bounds are finite and \<open>min < max\<close>, and
  the torque itself otherwise. A clamped value lies within the range unless the torque is
  \<open>NaN\<close>. The mapped address lies in the \<open>ctrl\<close> array and no two controlled degrees of
  freedom share a \<open>ctrl\<close> address.
\<close>

theorem pd_command_written:
  assumes jp: "control_type s = ''joint_position''"
    and dist: "distinct (ctrl_addresses s)"
    and mode: "(isMultiRobot s \<and> r < length (robotJointMappings s)
                 \<and> robotJointMappings s ! r = Some m \<and> r < length ts \<and> a = ts ! r
                 \<and> gp = gain_at (robot_kp s r) i \<and> gd = gain_at (robot_kd s r) i)
             \<or> (\<not> isMultiRobot s \<and> m = this_mapping s \<and> a = actionTarget s
                 \<and> gp = gain_at (kpPolicy s) i \<and> gd = gain_at (kdPolicy s) i)"
    and valid: "is_array a" "alength a = numActions m" "aindex a i = ENum t"
    and i: "i < numActions m"
    and adr: "lookup_adr (ctrl_adr_policy m) i = Some adr" "in_range (ctrl sm) adr"
    and torque: "torque = pd_law gp gd t (ta_get (qpos sm) (lookup_adr (qpos_adr_policy m) i))
                            (ta_get (qvel sm) (lookup_adr (qvel_adr_policy m) i))"
  shows "ctrl (control_phase s ts sm) ! nat adr =
           (if range_declared (model s) adr
            then clamp_into (fst (declared_range (model s) adr)) (snd (declared_range (model s) adr)) torque
            else torque)
         \<and> (range_declared (model s) adr \<and> torque \<noteq> NaN \<longrightarrow>
              jle (fst (declared_range (model s) adr)) (ctrl (control_phase s ts sm) ! nat adr)
              \<and> jle (ctrl (control_phase s ts sm) ! nat adr) (snd (declared_range (model s) adr)))"
proof -
  have val: "ctrl (control_phase s ts sm) ! nat adr = commanded (model s) adr torque"
  proof (cases "isMultiRobot s")
    case True
    with mode have r: "r < length (robotJointMappings s)" "robotJointMappings s ! r = Some m"
      "r < length ts" "a = ts ! r" "gp = gain_at (robot_kp s r) i" "gd = gain_at (robot_kd s r) i"
      by auto
    let ?ws = "concat (map (robot_writes s ts sm) [0..<length (robotJointMappings s)])"
    from valid(1) have tr: "truthy a" by (cases a) auto
    have rw: "robot_writes s ts sm r =
        map (\<lambda>i. (lookup_adr (ctrl_adr_policy m) i, multi_value s r m a sm i)) [0..<numActions m]"
      using r valid tr by (simp add: robot_writes_def nth_opt_def target_of_def)
    have "(Some adr, multi_value s r m a sm i) \<in> set (robot_writes s ts sm r)"
      unfolding rw using i adr(1) by force
    then have "(Some adr, multi_value s r m a sm i) \<in> set ?ws"
      using r(1) by auto
    moreover have "distinct (map fst ?ws)"
      using True dist by (rule distinct_all_writes)
    ultimately have "apply_writes ?ws (ctrl sm) ! nat adr = multi_value s r m a sm i"
      using adr(2) by (rule apply_writes_written)
    then show ?thesis
      using jp True valid(3) adr(1) r(5,6) torque
      by (simp add: control_phase_multi_ctrl multi_value_spec)
  next
    case False
    with mode have r: "m = this_mapping s" "a = actionTarget s"
      "gp = gain_at (kpPolicy s) i" "gd = gain_at (kdPolicy s) i"
      by auto
    let ?ws = "map (\<lambda>i. (lookup_adr (ctrl_adr_policy (this_mapping s)) i, single_value s sm i))
        [0..<numActions (this_mapping s)]"
    have "(Some adr, single_value s sm i) \<in> set ?ws"
      using i adr(1) r(1) by force
    moreover have "distinct (map fst ?ws)"
      using False dist by (simp add: ctrl_addresses_def mapping_addresses_def comp_def)
    ultimately have "apply_writes ?ws (ctrl sm) ! nat adr = single_value s sm i"
      using adr(2) by (rule apply_writes_written)
    then show ?thesis
      using jp False valid adr(1) r torque
      by (simp add: control_phase_single_ctrl single_value_spec)
  qed
  then show ?thesis
    using commanded_bounds [of "model s" adr torque] by (simp add: commanded_def)
qed


text \<open>A two-robot scene with one actuated joint per robot, used to instantiate the theorems.\<close>

definition mapping_a :: mapping where
  "mapping_a = \<lparr> qpos_adr_policy = [0], qvel_adr_policy = [0], ctrl_adr_policy = [0],
     numActions = 1, freejoint_qpos_adr = Some 0, freejoint_qvel_adr = Some 0 \<rparr>"

definition mapping_b :: mapping where
  "mapping_b = \<lparr> qpos_adr_policy = [1], qvel_adr_policy = [1], ctrl_adr_policy = [1],
     numActions = 1, freejoint_qpos_adr = Some 0, freejoint_qvel_adr = Some 0 \<rparr>"

definition sim_a :: simulation where
  "sim_a = \<lparr> qpos = [Fin 1, Fin 2], qvel = [Fin 0, Fin 1], ctrl = [Fin 0, Fin 0],
     qfrc_applied = [] \<rparr>"

definition model_a :: mjmodel where
  "model_a = \<lparr> names = [], name_bodyadr = [], nbody = 0, njnt = 0, jnt_bodyid = [],
     jnt_qposadr = [], actuator_ctrlrange = Some [Fin (- 1), Fin 1, Fin 0, Fin 0] \<rparr>"

definition demo_two :: "unit demo" where
  "demo_two = \<lparr> paused = False, current_motion = ''default'', alive = True,
     policyRunner = None, policyRunners = [Some (), Some ()],
     kpPolicy = Some [Fin 2], kdPolicy = Some [Fin 1], robotPolicyParams = [],
     actionTarget = AUndefined, model = Some model_a, data = True, sim = Some sim_a,
     control_type = ''joint_position'', this_mapping = mapping_a, decimation = 2,
     robotConfigs = [], robotPelvisBodyIds = [],
     robotJointMappings = [Some mapping_a, Some mapping_b], scene_file = None \<rparr>"

lemmas example_defs = demo_two_def mapping_a_def mapping_b_def sim_a_def model_a_def

theorem pd_command_written_witness:
  "control_type demo_two = ''joint_position'' \<and> distinct (ctrl_addresses demo_two)
   \<and> isMultiRobot demo_two \<and> robotJointMappings demo_two ! 0 = Some mapping_a
   \<and> is_array (AFloat32 [Fin 3]) \<and> alength (AFloat32 [Fin 3]) = numActions mapping_a
   \<and> aindex (AFloat32 [Fin 3]) 0 = ENum (Fin 3)
   \<and> lookup_adr (ctrl_adr_policy mapping_a) 0 = Some 0 \<and> in_range (ctrl sim_a) 0
   \<and> range_declared (model demo_two) 0
   \<and> ctrl (control_phase demo_two [AFloat32 [Fin 3], AUndefined] sim_a) ! nat 0 = Fin 1"
proof -
  have h1: "control_type demo_two = ''joint_position''" by (simp add: example_defs)
  have h2: "distinct (ctrl_addresses demo_two)"
    by (simp add: example_defs ctrl_addresses_def isMultiRobot_def mapping_addresses_def lookup_adr_def)
  have h3: "(isMultiRobot demo_two \<and> 0 < length (robotJointMappings demo_two)
                 \<and> robotJointMappings demo_two ! 0 = Some mapping_a
                 \<and> 0 < length [AFloat32 [Fin 3], AUndefined]
                 \<and> AFloat32 [Fin 3] = [AFloat32 [Fin 3], AUndefined] ! 0
                 \<and> Fin 2 = gain_at (robot_kp demo_two 0) 0 \<and> Fin 1 = gain_at (robot_kd demo_two 0) 0)
             \<or> (\<not> isMultiRobot demo_two \<and> mapping_a = this_mapping demo_two
                 \<and> AFloat32 [Fin 3] = actionTarget demo_two
                 \<and> Fin 2 = gain_at (kpPolicy demo_two) 0 \<and> Fin 1 = gain_at (kdPolicy demo_two) 0)"
    by (simp add: example_defs isMultiRobot_def gain_at_def robot_kp_def robot_kd_def nth_opt_def)
  have h4: "is_array (AFloat32 [Fin 3])" "alength (AFloat32 [Fin 3]) = numActions mapping_a"
    "aindex (AFloat32 [Fin 3]) 0 = ENum (Fin 3)" "0 < numActions mapping_a"
    "lookup_adr (ctrl_adr_policy mapping_a) 0 = Some 0" "in_range (ctrl sim_a) 0"
    by (simp_all add: example_defs lookup_adr_def in_range_def)
  have h5: "Fin 4 = pd_law (Fin 2) (Fin 1) (Fin 3)
       (ta_get (qpos sim_a) (lookup_adr (qpos_adr_policy mapping_a) 0))
       (ta_get (qvel sim_a) (lookup_adr (qvel_adr_policy mapping_a) 0))"
    by (simp add: example_defs pd_law_def jsub_def ta_get_def lookup_adr_def in_range_def)
  have h6: "range_declared (model demo_two) 0"
    by (simp add: example_defs range_declared_def declared_range_def ta_get_def in_range_def)
  have h7: "clamp_into (fst (declared_range (model demo_two) 0))
      (snd (declared_range (model demo_two) 0)) (Fin 4) = Fin 1"
    by (simp add: example_defs clamp_into_def declared_range_def ta_get_def in_range_def)
  have h8: "isMultiRobot demo_two" "robotJointMappings demo_two ! 0 = Some mapping_a"
    by (simp_all add: example_defs isMultiRobot_def)
  show ?thesis
    using pd_command_written [OF h1 h2 h3 h4 h5] h1 h2 h4 h6 h7 h8 by simp
qed

section \<open>A robot without a valid action target\<close>








lemma length_ctrl_control_phase [simp]: "length (ctrl (control_phase s ts sm)) = length (ctrl sm)"
  by (simp add: control_phase_def fold_multi_robot fold_single_write)


lemma fold_skip:
  assumes "\<And>x. f r x = g r x" "\<And>j x. j \<noteq> r \<Longrightarrow> f j x = g j x"
  shows "fold f rs x = fold g rs x"
proof -
  have "f = g" using assms by (intro ext) metis
  then show ?thesis by simp
qed




text \<open>
  An environment for the examples: the policy of every robot answers by \<open>answer\<close>, the physics
  operations leave the arrays as they are.
\<close>

definition env_of :: "(policy_state \<Rightarrow> step_outcome) \<Rightarrow> unit env" where
  "env_of answer = \<lparr> p_step = (\<lambda>p st. (answer st, p)), p_reset = (\<lambda>p st. p),
     has_tracking = (\<lambda>p. False), has_motion = (\<lambda>p n. False),
     has_startMotionFromCurrent = (\<lambda>p. False), startMotionFromCurrent = (\<lambda>p n st. p),
     tracking_requestMotion = (\<lambda>p n st. (False, p)),
     sim_step = (\<lambda>sm. sm), sim_forward = (\<lambda>sm. sm), sim_resetData = (\<lambda>sm. sm),
     drag_force = (\<lambda>sm. sm), fround = (\<lambda>v. v) \<rparr>"







section \<open>A policy that raises, a policy that returns an invalid target\<close>

text \<open>
  What the inference of a tick meets at robot \<open>j\<close>: whether the robot's policy raises on the
  robot's observation, the runner as the call leaves it, and the entry of \<open>actionTargets\<close>
  (\<open>undefined\<close> when there is no runner or the result fails the validation).
\<close>

definition raises_at :: "'p env \<Rightarrow> 'p demo \<Rightarrow> simulation \<Rightarrow> 'p option \<Rightarrow> nat \<Rightarrow> bool" where
  "raises_at e s sm ro j =
     (case ro of None \<Rightarrow> False
      | Some p \<Rightarrow> fst (p_step e p (readPolicyStateForRobot e s sm j)) = Raises)"

definition stepped :: "'p env \<Rightarrow> 'p demo \<Rightarrow> simulation \<Rightarrow> 'p option \<Rightarrow> nat \<Rightarrow> 'p option" where
  "stepped e s sm ro j =
     (case ro of None \<Rightarrow> None
      | Some p \<Rightarrow> Some (snd (p_step e p (readPolicyStateForRobot e s sm j))))"

definition inferred :: "'p env \<Rightarrow> 'p demo \<Rightarrow> simulation \<Rightarrow> 'p option \<Rightarrow> nat \<Rightarrow> action_value" where
  "inferred e s sm ro j =
     (case ro of None \<Rightarrow> AUndefined
      | Some p \<Rightarrow>
          (case fst (p_step e p (readPolicyStateForRobot e s sm j)) of
             Raises \<Rightarrow> AUndefined
           | Returns a \<Rightarrow> if \<not> truthy a \<or> \<not> is_array a \<or> alength a = 0 then AUndefined else a))"

definition raising :: "'p env \<Rightarrow> 'p demo \<Rightarrow> simulation \<Rightarrow> bool" where
  "raising e s sm =
     (if isMultiRobot s
      then list_ex (\<lambda>j. raises_at e s sm (nth_opt (policyRunners s) j) j)
             [0..<length (robotJointMappings s)]
      else (case policyRunner s of None \<Rightarrow> False
            | Some p \<Rightarrow> fst (p_step e p (readPolicyState e s sm)) = Raises))"

lemma nth_opt_update: "nth_opt (xs[i := v]) j = (if j = i \<and> i < length xs then v else nth_opt xs j)"
  by (auto simp: nth_opt_def)

lemma nth_opt_update_other [simp]: "j \<noteq> i \<Longrightarrow> nth_opt (xs[i := v]) j = nth_opt xs j"
  by (simp add: nth_opt_update)

lemma nth_opt_update_notin:
  "i \<notin> set idxs \<Longrightarrow> j \<in> set idxs \<Longrightarrow> nth_opt (xs[i := v]) j = nth_opt xs j"
  by (auto simp: nth_opt_update)

lemma infer_multi_raised:
  "distinct idxs \<Longrightarrow>
   fst (infer_multi e s sm idxs runners ts)
     = list_ex (\<lambda>j. raises_at e s sm (nth_opt runners j) j) idxs"
proof (induction idxs arbitrary: runners ts)
  case Nil
  then show ?case by simp
next
  case (Cons i idxs)
  have rest: "list_ex (\<lambda>j. raises_at e s sm (nth_opt (runners[i := v]) j) j) idxs
      = list_ex (\<lambda>j. raises_at e s sm (nth_opt runners j) j) idxs" for v
    using Cons.prems by (auto simp: list_ex_iff nth_opt_update_notin)
  show ?case
  proof (cases "nth_opt runners i")
    case None
    with Cons show ?thesis by (simp add: raises_at_def)
  next
    case (Some p)
    obtain out p' where st: "p_step e p (readPolicyStateForRobot e s sm i) = (out, p')"
      by (cases "p_step e p (readPolicyStateForRobot e s sm i)")
    show ?thesis
    proof (cases out)
      case Raises
      with Some st show ?thesis by (simp add: raises_at_def)
    next
      case (Returns a)
      with Some st Cons rest show ?thesis by (simp add: raises_at_def)
    qed
  qed
qed

lemma infer_multi_result:
  "distinct idxs \<Longrightarrow> \<forall>j \<in> set idxs. j < length ts \<Longrightarrow>
   \<not> list_ex (\<lambda>j. raises_at e s sm (nth_opt runners j) j) idxs \<Longrightarrow>
   snd (infer_multi e s sm idxs runners ts) =
     (map (\<lambda>j. if j \<in> set idxs then stepped e s sm (nth_opt runners j) j else runners ! j)
        [0..<length runners],
      map (\<lambda>j. if j \<in> set idxs \<and> inferred e s sm (nth_opt runners j) j \<noteq> AUndefined
                then inferred e s sm (nth_opt runners j) j else ts ! j)
        [0..<length ts])"
proof (induction idxs arbitrary: runners ts)
  case Nil
  then show ?case by (simp add: map_nth)
next
  case (Cons i idxs)
  from Cons.prems have i: "i < length ts" "i \<notin> set idxs" by auto
  show ?case
  proof (cases "nth_opt runners i")
    case None
    then have "i < length runners \<Longrightarrow> runners ! i = None" by (simp add: nth_opt_def)
    with None Cons show ?thesis
      by (auto simp: stepped_def inferred_def raises_at_def)
  next
    case (Some p)
    obtain out p' where st: "p_step e p (readPolicyStateForRobot e s sm i) = (out, p')"
      by (cases "p_step e p (readPolicyStateForRobot e s sm i)")
    from Cons.prems(3) Some st obtain a where out: "out = Returns a"
      by (cases out) (auto simp: raises_at_def)
    let ?r = "runners[i := Some p']"
    have nr: "\<not> list_ex (\<lambda>j. raises_at e s sm (nth_opt ?r j) j) idxs"
      using Cons.prems i by (auto simp: list_ex_iff nth_opt_update_notin)
    have same: "j \<in> set idxs \<Longrightarrow> nth_opt ?r j = nth_opt runners j" for j
      using i(2) by (simp add: nth_opt_update_notin)
    from Some have il: "i < length runners" by (simp add: nth_opt_def split: if_splits)
    show ?thesis
    proof (cases "\<not> truthy a \<or> \<not> is_array a \<or> alength a = 0")
      case True
      have "snd (infer_multi e s sm (i # idxs) runners ts) = snd (infer_multi e s sm idxs ?r ts)"
        using Some st out True by simp
      also have "\<dots> = (map (\<lambda>j. if j \<in> set idxs then stepped e s sm (nth_opt ?r j) j else ?r ! j)
            [0..<length ?r],
          map (\<lambda>j. if j \<in> set idxs \<and> inferred e s sm (nth_opt ?r j) j \<noteq> AUndefined
                then inferred e s sm (nth_opt ?r j) j else ts ! j) [0..<length ts])"
        using Cons.prems nr by (intro Cons.IH) auto
      also have "\<dots> = (map (\<lambda>j. if j \<in> set (i # idxs) then stepped e s sm (nth_opt runners j) j
              else runners ! j) [0..<length runners],
          map (\<lambda>j. if j \<in> set (i # idxs) \<and> inferred e s sm (nth_opt runners j) j \<noteq> AUndefined
                then inferred e s sm (nth_opt runners j) j else ts ! j) [0..<length ts])"
        using Some st out True i il same
        by (auto simp: stepped_def inferred_def nth_list_update)
      finally show ?thesis .
    next
      case False
      let ?t = "ts[i := a]"
      have "snd (infer_multi e s sm (i # idxs) runners ts) = snd (infer_multi e s sm idxs ?r ?t)"
        using Some st out False by simp
      also have "\<dots> = (map (\<lambda>j. if j \<in> set idxs then stepped e s sm (nth_opt ?r j) j else ?r ! j)
            [0..<length ?r],
          map (\<lambda>j. if j \<in> set idxs \<and> inferred e s sm (nth_opt ?r j) j \<noteq> AUndefined
                then inferred e s sm (nth_opt ?r j) j else ?t ! j) [0..<length ?t])"
        using Cons.prems nr by (intro Cons.IH) auto
      also have "\<dots> = (map (\<lambda>j. if j \<in> set (i # idxs) then stepped e s sm (nth_opt runners j) j
              else runners ! j) [0..<length runners],
          map (\<lambda>j. if j \<in> set (i # idxs) \<and> inferred e s sm (nth_opt runners j) j \<noteq> AUndefined
                then inferred e s sm (nth_opt runners j) j else ts ! j) [0..<length ts])"
        using Some st out False i il same
        by (auto simp: stepped_def inferred_def nth_list_update)
      finally show ?thesis .
    qed
  qed
qed


lemma run_loop_dead: "\<not> alive s \<Longrightarrow> run_loop e n s = s"
  by (cases n) simp_all

text \<open>
  C3. In a tick that runs (not paused, model, data and simulation loaded, a policy attached):
  if a policy's \<open>step\<close> raises, \<open>alive\<close> becomes false, the simulation is as before the tick
  (no control write, no physics step) and the loop ends with this tick. If no policy raises,
  whatever the policies return, \<open>alive\<close> is unchanged and the loop goes on to the next tick;
  in multi-robot mode every robot's runner has been stepped, a result that fails the
  validation leaves that robot's entry of \<open>actionTargets\<close> undefined and the entries of the
  other robots are their policies' results, with which the sub-steps run.
\<close>

theorem policy_exception_halts:
  assumes "sim s = Some sm" "\<not> paused s" "model s \<noteq> None" "data s" "hasPolicyRunner s"
  shows "(raising e s sm \<longrightarrow>
            alive (tick e s) = False \<and> sim (tick e s) = Some sm
            \<and> (alive s \<longrightarrow> run_loop e (Suc n) s = tick e s))
       \<and> (\<not> raising e s sm \<longrightarrow>
            alive (tick e s) = alive s
            \<and> (alive s \<longrightarrow> run_loop e (Suc (Suc n)) s = run_loop e n (tick e (tick e s)))
            \<and> (isMultiRobot s \<longrightarrow>
                 policyRunners (tick e s)
                   = map (\<lambda>j. if j < length (robotJointMappings s)
                               then stepped e s sm (nth_opt (policyRunners s) j) j
                               else policyRunners s ! j) [0..<length (policyRunners s)]
                 \<and> sim (tick e s)
                   = Some (substeps e s
                       (map (\<lambda>j. inferred e s sm (nth_opt (policyRunners s) j) j)
                          [0..<length (robotJointMappings s)]) sm)))"
proof (cases "isMultiRobot s")
  case True
  let ?n = "length (robotJointMappings s)"
  let ?res = "infer_multi e s sm [0..<?n] (policyRunners s) (replicate ?n AUndefined)"
  have raised: "fst ?res = raising e s sm"
    using True by (simp add: infer_multi_raised raising_def)
  obtain b runners ts where res: "?res = (b, runners, ts)" by (cases ?res)
  show ?thesis
  proof (cases "raising e s sm")
    case r: True
    with raised res have "b" by simp
    with res assms True have t: "tick e s = s\<lparr>alive := False, policyRunners := runners\<rparr>"
      by (simp add: tick_def)
    then have "alive (tick e s) = False" "sim (tick e s) = Some sm"
      using assms by simp_all
    moreover from this have "alive s \<Longrightarrow> run_loop e (Suc n) s = tick e s"
      by (simp add: run_loop_dead)
    ultimately show ?thesis using r by simp
  next
    case nr: False
    with raised res have b: "\<not> b" by simp
    with res assms True have t: "tick e s = s\<lparr>policyRunners := runners, actionTarget := ts ! 0,
                      sim := Some (substeps e s ts sm)\<rparr>"
      by (simp add: tick_def)
    have "\<not> list_ex (\<lambda>j. raises_at e s sm (nth_opt (policyRunners s) j) j) [0..<?n]"
      using nr True by (simp add: raising_def)
    then have "snd ?res =
       (map (\<lambda>j. if j \<in> set [0..<?n] then stepped e s sm (nth_opt (policyRunners s) j) j
                  else policyRunners s ! j) [0..<length (policyRunners s)],
        map (\<lambda>j. if j \<in> set [0..<?n] \<and> inferred e s sm (nth_opt (policyRunners s) j) j \<noteq> AUndefined
                then inferred e s sm (nth_opt (policyRunners s) j) j
                else replicate ?n AUndefined ! j) [0..<length (replicate ?n AUndefined)])"
      by (intro infer_multi_result) simp_all
    with res have rs: "runners = map (\<lambda>j. if j < ?n then stepped e s sm (nth_opt (policyRunners s) j) j
                  else policyRunners s ! j) [0..<length (policyRunners s)]"
      and tsv: "ts = map (\<lambda>j. inferred e s sm (nth_opt (policyRunners s) j) j) [0..<?n]"
      by (auto intro: nth_equalityI)
    have "alive (tick e s) = alive s" using t by simp
    moreover have "alive s \<Longrightarrow> run_loop e (Suc (Suc n)) s = run_loop e n (tick e (tick e s))"
      using t by simp
    ultimately show ?thesis using nr t rs tsv by simp
  qed
next
  case False
  with assms obtain p where p: "policyRunner s = Some p"
    by (auto simp: hasPolicyRunner_def)
  obtain out p' where st: "p_step e p (readPolicyState e s sm) = (out, p')"
    by (cases "p_step e p (readPolicyState e s sm)")
  show ?thesis
  proof (cases out)
    case Raises
    with p st False have r: "raising e s sm" by (simp add: raising_def)
    from Raises p st False assms have t: "tick e s = s\<lparr>alive := False, policyRunner := Some p'\<rparr>"
      by (simp add: tick_def)
    then have "alive (tick e s) = False" "sim (tick e s) = Some sm"
      using assms by simp_all
    moreover from this have "alive s \<Longrightarrow> run_loop e (Suc n) s = tick e s"
      by (simp add: run_loop_dead)
    ultimately show ?thesis using r by simp
  next
    case (Returns a)
    with p st False have nr: "\<not> raising e s sm" by (simp add: raising_def)
    from Returns p st False assms have "alive (tick e s) = alive s"
      by (simp add: tick_def Let_def)
    moreover from this have "alive s \<Longrightarrow> run_loop e (Suc (Suc n)) s = run_loop e n (tick e (tick e s))"
      by simp
    ultimately show ?thesis using nr False by simp
  qed
qed


text \<open>
  A policy for the examples that returns \<open>null\<close> to the robot whose joint stands at \<open>1\<close> and
  a one-element target to any other.
\<close>

definition picky :: "policy_state \<Rightarrow> step_outcome" where
  "picky st = (if jointPos st = [Fin 1] then Returns ANull else Returns (AFloat32 [Fin 5]))"

theorem policy_exception_halts_witness:
  "sim demo_two = Some sim_a \<and> \<not> paused demo_two \<and> model demo_two \<noteq> None \<and> data demo_two
   \<and> hasPolicyRunner demo_two \<and> alive demo_two
   \<and> raising (env_of (\<lambda>st. Raises)) demo_two sim_a
   \<and> \<not> alive (tick (env_of (\<lambda>st. Raises)) demo_two)
   \<and> sim (tick (env_of (\<lambda>st. Raises)) demo_two) = Some sim_a
   \<and> \<not> raising (env_of picky) demo_two sim_a
   \<and> map (\<lambda>j. inferred (env_of picky) demo_two sim_a (nth_opt (policyRunners demo_two) j) j)
        [0..<length (robotJointMappings demo_two)] = [AUndefined, AFloat32 [Fin 5]]
   \<and> alive (tick (env_of picky) demo_two)"
proof -
  have h: "sim demo_two = Some sim_a" "\<not> paused demo_two" "model demo_two \<noteq> None" "data demo_two"
    "hasPolicyRunner demo_two"
    by (simp_all add: example_defs hasPolicyRunner_def isMultiRobot_def)
  have ob: "jointPos (readPolicyStateForRobot (env_of f) demo_two sim_a 0) = [Fin 1]"
    "jointPos (readPolicyStateForRobot (env_of f) demo_two sim_a (Suc 0)) = [Fin 2]" for f
    by (simp_all add: readPolicyStateForRobot_def example_defs env_of_def nth_opt_def ta_get_def
        lookup_adr_def in_range_def Let_def)
  have r1: "raising (env_of (\<lambda>st. Raises)) demo_two sim_a"
    by (simp add: raising_def raises_at_def isMultiRobot_def nth_opt_def example_defs env_of_def)
  have r2: "\<not> raising (env_of picky) demo_two sim_a"
    using ob [of picky]
    by (simp add: raising_def raises_at_def isMultiRobot_def nth_opt_def demo_two_def env_of_def
        picky_def upt_rec [of 0])
  have inf: "map (\<lambda>j. inferred (env_of picky) demo_two sim_a (nth_opt (policyRunners demo_two) j) j)
        [0..<length (robotJointMappings demo_two)] = [AUndefined, AFloat32 [Fin 5]]"
    using ob [of picky]
    by (simp add: inferred_def nth_opt_def demo_two_def env_of_def picky_def upt_rec [of 0]
        upt_rec [of 1])
  have al: "alive demo_two" by (simp add: example_defs)
  from policy_exception_halts [OF h, of "env_of (\<lambda>st. Raises)" 0] r1
  have c1: "\<not> alive (tick (env_of (\<lambda>st. Raises)) demo_two)"
    "sim (tick (env_of (\<lambda>st. Raises)) demo_two) = Some sim_a"
    by simp_all
  from policy_exception_halts [OF h, of "env_of picky" 0] r2 al
  have c2: "alive (tick (env_of picky) demo_two)"
    by simp
  show ?thesis using h al r1 r2 inf c1 c2 by simp
qed

section \<open>Spawn poses and reset\<close>

text \<open>The decimal digits of a natural number, as a template literal prints it.\<close>

fun decimal :: "nat \<Rightarrow> string" where
  "decimal n = (if n < 10 then [''0123456789'' ! n]
                else decimal (n div 10) @ [''0123456789'' ! (n mod 10)])"

declare decimal.simps [simp del]

text \<open>
  The name of the anchor body of robot \<open>index\<close>:
  \<^verbatim>\<open>index === 0 ? 'pelvis' : `robot${index + 1}_pelvis`\<close>.
\<close>

definition robotPrefix :: "nat \<Rightarrow> string" where
  "robotPrefix index = (if index = 0 then ''pelvis''
                        else ''robot'' @ decimal (index + 1) @ ''_pelvis'')"

text \<open>
  The name of body \<open>b\<close>: the bytes of the name blob from the body's offset up to the next zero
  byte. Names are compared as byte strings; without an offset for \<open>b\<close> the source decodes the
  whole blob.
\<close>

definition body_name :: "mjmodel \<Rightarrow> nat \<Rightarrow> string" where
  "body_name mdl b =
     (if b < length (name_bodyadr mdl)
      then takeWhile (\<lambda>c. c \<noteq> CHR 0x00) (drop (name_bodyadr mdl ! b) (names mdl))
      else names mdl)"

definition find_pelvis :: "mjmodel \<Rightarrow> nat \<Rightarrow> nat option" where
  "find_pelvis mdl index = find (\<lambda>b. body_name mdl b = robotPrefix index) [0..<nbody mdl]"

text \<open>
  The first joint of the anchor body whose position address leaves room for seven numbers in
  \<open>qpos\<close>: the robot's free joint.
\<close>

definition find_freejoint :: "mjmodel \<Rightarrow> jsnum list \<Rightarrow> nat \<Rightarrow> int option" where
  "find_freejoint mdl qp pelvisBodyId =
     (case find (\<lambda>j. lookup_adr (jnt_bodyid mdl) j = Some (int pelvisBodyId)
                      \<and> (case lookup_adr (jnt_qposadr mdl) j of None \<Rightarrow> False
                          | Some qposAdr \<Rightarrow> 0 \<le> qposAdr \<and> qposAdr + 6 < int (length qp)))
             [0..<njnt mdl] of
        None \<Rightarrow> None
      | Some j \<Rightarrow> lookup_adr (jnt_qposadr mdl) j)"

text \<open>The position and the upright orientation written at a free joint's address.\<close>

definition write_pose :: "jsnum list \<Rightarrow> int \<Rightarrow> config \<Rightarrow> jsnum list" where
  "write_pose qp qposAdr c =
     fold (\<lambda>(k, v) q. ta_set q (Some (qposAdr + k)) v)
       [(0, cfg_x c), (1, cfg_y c), (2, cfg_z c), (3, Fin 1), (4, Fin 0), (5, Fin 0), (6, Fin 0)] qp"

text \<open>
  One round of the \<open>forEach\<close> over the configs: it records the anchor body's id and writes the
  pose; a robot whose anchor body is not found is skipped.
\<close>

definition place_robot ::
  "mjmodel \<Rightarrow> config \<times> nat \<Rightarrow> jsnum list \<times> nat option list \<Rightarrow> jsnum list \<times> nat option list" where
  "place_robot mdl ci st =
     (case st of (qp, ids) \<Rightarrow>
        (case find_pelvis mdl (snd ci) of
           None \<Rightarrow> (qp, ids @ [None])
         | Some pelvisBodyId \<Rightarrow>
             (case find_freejoint mdl qp pelvisBodyId of
                None \<Rightarrow> (qp, ids @ [Some pelvisBodyId])
              | Some qposAdr \<Rightarrow> (write_pose qp qposAdr (fst ci), ids @ [Some pelvisBodyId]))))"

text \<open>
  \<open>setMultiRobotInitialPositions\<close>: nothing for at most one config or when nothing is loaded;
  else every robot is placed and the physics state recomputed by \<open>forward\<close>. An index of
  \<open>robotPelvisBodyIds\<close> that the source never assigns holds \<open>None\<close>.
\<close>

definition setMultiRobotInitialPositions :: "'p env \<Rightarrow> 'p demo \<Rightarrow> 'p demo" where
  "setMultiRobotInitialPositions e s =
     (if length (robotConfigs s) \<le> 1 then s
      else (case (model s, sim s) of
              (Some mdl, Some sm) \<Rightarrow>
                if \<not> data s then s
                else (case fold (place_robot mdl)
                             (zip (robotConfigs s) [0..<length (robotConfigs s)]) (qpos sm, []) of
                        (qp, ids) \<Rightarrow>
                          s\<lparr>robotPelvisBodyIds := ids,
                            sim := Some (sim_forward e (sm\<lparr>qpos := qp\<rparr>))\<rparr>)
            | _ \<Rightarrow> s))"

text \<open>
  \<open>resetSimulation\<close>: without a simulation it returns at once. Else it pauses, resets the
  physics data, re-applies the spawn poses of a multi-robot scene, clears \<open>actionTarget\<close>,
  resets the runners of the mode with the state read from the reset simulation, and unpauses.
\<close>

definition reset_runner :: "'p env \<Rightarrow> 'p demo \<Rightarrow> simulation \<Rightarrow> nat \<Rightarrow> 'p option" where
  "reset_runner e s sm robotIdx =
     (case nth_opt (policyRunners s) robotIdx of
        None \<Rightarrow> None
      | Some p \<Rightarrow> Some (p_reset e p (readPolicyStateForRobot e s sm robotIdx)))"

definition resetSimulation :: "'p env \<Rightarrow> 'p demo \<Rightarrow> 'p demo" where
  "resetSimulation e s =
     (case sim s of
        None \<Rightarrow> s
      | Some sm0 \<Rightarrow>
          (let s1 = s\<lparr>paused := True, sim := Some (sim_forward e (sim_resetData e sm0))\<rparr>;
               s2 = (if 1 < length (robotConfigs s1) then setMultiRobotInitialPositions e s1 else s1);
               s3 = s2\<lparr>actionTarget := ANull\<rparr>;
               s4 = (case sim s3 of
                       None \<Rightarrow> s3
                     | Some sm \<Rightarrow>
                         if isMultiRobot s3 then
                           s3\<lparr>policyRunners := map (reset_runner e s3 sm) [0..<length (policyRunners s3)],
                              current_motion := ''default''\<rparr>
                         else (case policyRunner s3 of
                                 None \<Rightarrow> s3
                               | Some p \<Rightarrow>
                                   s3\<lparr>policyRunner := Some (p_reset e p (readPolicyState e s3 sm)),
                                      current_motion := ''default''\<rparr>))
           in s4\<lparr>paused := False\<rparr>))"

lemma readPolicyState_cong:
  "this_mapping s = this_mapping s' \<Longrightarrow> readPolicyState e s sm = readPolicyState e s' sm"
  by (simp add: readPolicyState_def)

lemma readPolicyStateForRobot_cong:
  "this_mapping s = this_mapping s' \<Longrightarrow> robotJointMappings s = robotJointMappings s' \<Longrightarrow>
   readPolicyStateForRobot e s sm j = readPolicyStateForRobot e s' sm j"
  by (simp add: readPolicyStateForRobot_def readPolicyState_cong [of s s'] split: option.splits)

lemma setMultiRobotInitialPositions_frame:
  "\<exists>ids smo. setMultiRobotInitialPositions e s = s\<lparr>robotPelvisBodyIds := ids, sim := smo\<rparr>
     \<and> (sim s \<noteq> None \<longrightarrow> smo \<noteq> None)"
proof -
  have triv: "s = s\<lparr>robotPelvisBodyIds := robotPelvisBodyIds s, sim := sim s\<rparr>" by simp
  show ?thesis
  proof (cases "length (robotConfigs s) \<le> 1 \<or> model s = None \<or> sim s = None \<or> \<not> data s")
    case True
    then have "setMultiRobotInitialPositions e s = s"
      by (auto simp: setMultiRobotInitialPositions_def split: option.splits)
    with triv have "setMultiRobotInitialPositions e s
        = s\<lparr>robotPelvisBodyIds := robotPelvisBodyIds s, sim := sim s\<rparr>
      \<and> (sim s \<noteq> None \<longrightarrow> sim s \<noteq> None)" by simp
    then show ?thesis by (intro exI)
  next
    case False
    then obtain mdl sm where ms: "model s = Some mdl" "sim s = Some sm" by auto
    obtain qp ids where f: "fold (place_robot mdl)
        (zip (robotConfigs s) [0..<length (robotConfigs s)]) (qpos sm, []) = (qp, ids)"
      by (cases "fold (place_robot mdl) (zip (robotConfigs s) [0..<length (robotConfigs s)]) (qpos sm, [])")
    from False ms f have "setMultiRobotInitialPositions e s
        = s\<lparr>robotPelvisBodyIds := ids, sim := Some (sim_forward e (sm\<lparr>qpos := qp\<rparr>))\<rparr>"
      by (simp add: setMultiRobotInitialPositions_def)
    then show ?thesis by blast
  qed
qed

text \<open>
  C8. For a loaded simulation, \<open>resetSimulation\<close> returns with \<open>paused = false\<close> and
  \<open>actionTarget = null\<close>. The simulation it leaves is the physics data reset (\<open>resetData\<close>,
  \<open>forward\<close>) with the spawn poses re-applied when there is more than one robot config, and
  every attached runner of the mode (each entry of \<open>policyRunners\<close> in multi-robot mode,
  \<open>policyRunner\<close> otherwise) is the old runner reset with the policy state read from that
  simulation.
\<close>

theorem reset_unpauses:
  assumes "sim s = Some sm0"
  shows "\<not> paused (resetSimulation e s) \<and> actionTarget (resetSimulation e s) = ANull
    \<and> sim (resetSimulation e s)
        = sim (if 1 < length (robotConfigs s)
               then setMultiRobotInitialPositions e
                      (s\<lparr>paused := True, sim := Some (sim_forward e (sim_resetData e sm0))\<rparr>)
               else s\<lparr>paused := True, sim := Some (sim_forward e (sim_resetData e sm0))\<rparr>)
    \<and> (\<exists>sm. sim (resetSimulation e s) = Some sm
          \<and> (if isMultiRobot s
              then policyRunners (resetSimulation e s)
                     = map (\<lambda>j. map_option (\<lambda>p. p_reset e p (readPolicyStateForRobot e s sm j))
                                  (policyRunners s ! j)) [0..<length (policyRunners s)]
              else policyRunner (resetSimulation e s)
                     = map_option (\<lambda>p. p_reset e p (readPolicyState e s sm)) (policyRunner s)))"
proof -
  let ?s1 = "s\<lparr>paused := True, sim := Some (sim_forward e (sim_resetData e sm0))\<rparr>"
  define s2 where "s2 = (if 1 < length (robotConfigs ?s1)
                         then setMultiRobotInitialPositions e ?s1 else ?s1)"
  have res0: "resetSimulation e s =
      (let s3 = s2\<lparr>actionTarget := ANull\<rparr>;
           s4 = (case sim s3 of
                   None \<Rightarrow> s3
                 | Some sm \<Rightarrow>
                     if isMultiRobot s3 then
                       s3\<lparr>policyRunners := map (reset_runner e s3 sm) [0..<length (policyRunners s3)],
                          current_motion := ''default''\<rparr>
                     else (case policyRunner s3 of
                             None \<Rightarrow> s3
                           | Some p \<Rightarrow>
                               s3\<lparr>policyRunner := Some (p_reset e p (readPolicyState e s3 sm)),
                                  current_motion := ''default''\<rparr>))
       in s4\<lparr>paused := False\<rparr>)"
    using assms unfolding s2_def resetSimulation_def by (simp add: Let_def)
  obtain ids sm where s2: "s2 = ?s1\<lparr>robotPelvisBodyIds := ids, sim := Some sm\<rparr>"
  proof (cases "1 < length (robotConfigs ?s1)")
    case True
    from setMultiRobotInitialPositions_frame [of e ?s1] obtain ids smo where
      f: "setMultiRobotInitialPositions e ?s1 = ?s1\<lparr>robotPelvisBodyIds := ids, sim := smo\<rparr>"
      and "smo \<noteq> None" by auto
    then obtain sm where "smo = Some sm" by auto
    with f True have "s2 = ?s1\<lparr>robotPelvisBodyIds := ids, sim := Some sm\<rparr>"
      unfolding s2_def by simp
    then show ?thesis by (rule that)
  next
    case False
    then have "s2 = ?s1\<lparr>robotPelvisBodyIds := robotPelvisBodyIds s,
        sim := Some (sim_forward e (sim_resetData e sm0))\<rparr>"
      unfolding s2_def by simp
    then show ?thesis by (rule that)
  qed
  let ?s3 = "?s1\<lparr>robotPelvisBodyIds := ids, sim := Some sm, actionTarget := ANull\<rparr>"
  have rs: "readPolicyStateForRobot e ?s3 sm j = readPolicyStateForRobot e s sm j" for j
    by (rule readPolicyStateForRobot_cong) simp_all
  have r1: "readPolicyState e ?s3 sm = readPolicyState e s sm"
    by (rule readPolicyState_cong) simp
  have rr: "reset_runner e ?s3 sm j
      = (if j < length (policyRunners s)
         then map_option (\<lambda>p. p_reset e p (readPolicyStateForRobot e s sm j)) (policyRunners s ! j)
         else None)" for j
    unfolding reset_runner_def rs by (simp add: nth_opt_def split: option.splits)
  have res: "resetSimulation e s =
      (if isMultiRobot s
       then ?s3\<lparr>policyRunners := map (reset_runner e ?s3 sm) [0..<length (policyRunners s)],
               current_motion := ''default'', paused := False\<rparr>
       else (case policyRunner s of None \<Rightarrow> ?s3\<lparr>paused := False\<rparr>
             | Some p \<Rightarrow> ?s3\<lparr>policyRunner := Some (p_reset e p (readPolicyState e ?s3 sm)),
                               current_motion := ''default'', paused := False\<rparr>))"
    unfolding res0 s2 by (simp add: Let_def isMultiRobot_def split: option.splits)
  have simeq: "sim (resetSimulation e s) = Some sm"
    by (simp add: res split: option.splits)
  have "sim s2 = Some sm" by (simp add: s2)
  then have sim2: "sim (if 1 < length (robotConfigs s)
               then setMultiRobotInitialPositions e ?s1 else ?s1) = Some sm"
    unfolding s2_def by simp
  have "\<not> paused (resetSimulation e s)" "actionTarget (resetSimulation e s) = ANull"
    by (simp_all add: res split: option.splits)
  moreover have "if isMultiRobot s
              then policyRunners (resetSimulation e s)
                     = map (\<lambda>j. map_option (\<lambda>p. p_reset e p (readPolicyStateForRobot e s sm j))
                                  (policyRunners s ! j)) [0..<length (policyRunners s)]
              else policyRunner (resetSimulation e s)
                     = map_option (\<lambda>p. p_reset e p (readPolicyState e s sm)) (policyRunner s)"
    unfolding res rr r1 by (simp split: option.splits)
  ultimately show ?thesis using simeq sim2 by simp
qed


text \<open>
  A loaded two-robot scene for the example: bodies \<open>world\<close>, \<open>pelvis\<close> and \<open>robot2_pelvis\<close>,
  the free joints of the two robots at the \<open>qpos\<close> addresses \<open>0\<close> and \<open>7\<close>.
\<close>

definition model_b :: mjmodel where
  "model_b = \<lparr> names = ''world'' @ [CHR 0x00] @ ''pelvis'' @ [CHR 0x00] @ ''robot2_pelvis'' @ [CHR 0x00],
     name_bodyadr = [0, 6, 13], nbody = 3, njnt = 2, jnt_bodyid = [1, 2],
     jnt_qposadr = [0, 7], actuator_ctrlrange = None \<rparr>"

definition demo_reset :: "unit demo" where
  "demo_reset = demo_two \<lparr> paused := True, actionTarget := AFloat32 [Fin 1],
     model := Some model_b,
     sim := Some \<lparr> qpos = replicate 14 (Fin 9), qvel = [], ctrl = [], qfrc_applied = [] \<rparr>,
     robotConfigs := [\<lparr> cfg_x = Fin 1, cfg_y = Fin 2, cfg_z = Fin 3, cfg_motion = None \<rparr>,
                      \<lparr> cfg_x = Fin 4, cfg_y = Fin 5, cfg_z = Fin 6, cfg_motion = None \<rparr>] \<rparr>"

lemma place_example:
  "sim (setMultiRobotInitialPositions (env_of f)
         (demo_reset\<lparr>paused := True,
            sim := Some \<lparr> qpos = replicate 14 (Fin 9), qvel = [], ctrl = [], qfrc_applied = [] \<rparr>\<rparr>))
   = Some \<lparr> qpos = [Fin 1, Fin 2, Fin 3, Fin 1, Fin 0, Fin 0, Fin 0,
                    Fin 4, Fin 5, Fin 6, Fin 1, Fin 0, Fin 0, Fin 0],
            qvel = [], ctrl = [], qfrc_applied = [] \<rparr>"
proof -
  have n: "body_name model_b 0 = ''world''" "body_name model_b (Suc 0) = ''pelvis''"
    "body_name model_b (Suc (Suc 0)) = ''robot2_pelvis''"
    by (simp_all add: body_name_def model_b_def)
  have p: "robotPrefix 0 = ''pelvis''" "robotPrefix (Suc 0) = ''robot2_pelvis''"
    by (simp_all add: robotPrefix_def decimal.simps)
  have u: "[0..<nbody model_b] = [0, Suc 0, Suc (Suc 0)]" "[0..<njnt model_b] = [0, Suc 0]"
    "[0..<2] = [0, Suc 0]"
    by (simp_all add: model_b_def upt_conv_Cons eval_nat_numeral)
  have f: "find_pelvis model_b 0 = Some (Suc 0)" "find_pelvis model_b (Suc 0) = Some (Suc (Suc 0))"
    by (simp_all add: find_pelvis_def u n p)
  have r: "replicate 14 (Fin 9) = [Fin 9, Fin 9, Fin 9, Fin 9, Fin 9, Fin 9, Fin 9,
      Fin 9, Fin 9, Fin 9, Fin 9, Fin 9, Fin 9, Fin 9]"
    by (simp add: eval_nat_numeral)
  have j: "length qp = 14 \<Longrightarrow> find_freejoint model_b qp (Suc 0) = Some 0"
    "length qp = 14 \<Longrightarrow> find_freejoint model_b qp (Suc (Suc 0)) = Some 7" for qp
    by (simp_all add: find_freejoint_def u lookup_adr_def model_b_def)
  show ?thesis
    by (simp add: setMultiRobotInitialPositions_def demo_reset_def demo_two_def env_of_def
        upt_rec [of 0] upt_rec [of 1] place_robot_def f j r write_pose_def ta_set_def in_range_def)
qed

theorem reset_unpauses_witness:
  "sim demo_reset = Some \<lparr> qpos = replicate 14 (Fin 9), qvel = [], ctrl = [], qfrc_applied = [] \<rparr>
   \<and> paused demo_reset \<and> actionTarget demo_reset = AFloat32 [Fin 1]
   \<and> \<not> paused (resetSimulation (env_of (\<lambda>st. Raises)) demo_reset)
   \<and> actionTarget (resetSimulation (env_of (\<lambda>st. Raises)) demo_reset) = ANull
   \<and> sim (resetSimulation (env_of (\<lambda>st. Raises)) demo_reset)
       = Some \<lparr> qpos = [Fin 1, Fin 2, Fin 3, Fin 1, Fin 0, Fin 0, Fin 0,
                        Fin 4, Fin 5, Fin 6, Fin 1, Fin 0, Fin 0, Fin 0],
                qvel = [], ctrl = [], qfrc_applied = [] \<rparr>"
proof -
  let ?sm = "\<lparr> qpos = replicate 14 (Fin 9), qvel = [], ctrl = [], qfrc_applied = [] \<rparr>"
  have h: "sim demo_reset = Some ?sm" by (simp add: demo_reset_def)
  have c: "1 < length (robotConfigs demo_reset)" "paused demo_reset"
    "actionTarget demo_reset = AFloat32 [Fin 1]"
    by (simp_all add: demo_reset_def)
  have i: "sim_forward (env_of (\<lambda>st. Raises)) (sim_resetData (env_of (\<lambda>st. Raises)) ?sm) = ?sm"
    by (simp add: env_of_def)
  from reset_unpauses [OF h, of "env_of (\<lambda>st. Raises)"] c place_example [of "\<lambda>st. Raises"]
  show ?thesis unfolding i using h by simp
qed

section \<open>Motion requests\<close>

text \<open>
  The arguments \<open>name\<close> and \<open>robotIndex\<close> of \<open>requestMotion\<close> are untyped; \<open>JObject\<close> stands for
  any value that is not \<open>undefined\<close>, \<open>null\<close>, a number, a string or a boolean.
\<close>

datatype jsarg = JUndefined | JNull | JNumber jsnum | JString string | JBoolean bool | JObject

text \<open>The array \<open>runners\<close> the request works on, and whether it is \<open>this.policyRunners\<close>.\<close>

definition uses_policyRunners :: "'p demo \<Rightarrow> bool" where
  "uses_policyRunners s = (isMultiRobot s \<and> 0 < length (policyRunners s))"

definition runners :: "'p demo \<Rightarrow> 'p option list" where
  "runners s = (if uses_policyRunners s then policyRunners s
                else (case policyRunner s of None \<Rightarrow> [] | Some p \<Rightarrow> [Some p]))"

definition store_runner :: "'p demo \<Rightarrow> nat \<Rightarrow> 'p \<Rightarrow> 'p demo" where
  "store_runner s idx p =
     (if uses_policyRunners s then s\<lparr>policyRunners := (policyRunners s)[idx := Some p]\<rparr>
      else s\<lparr>policyRunner := Some p\<rparr>)"

text \<open>
  \<open>applyToRobot\<close>: the result is \<open>None\<close> when the call throws (reading the policy state
  without a simulation), else the returned flag.
\<close>

definition applyToRobot ::
  "'p env \<Rightarrow> string \<Rightarrow> bool \<Rightarrow> nat \<Rightarrow> 'p demo \<Rightarrow> bool option \<times> 'p demo" where
  "applyToRobot e name force idx s =
     (case nth_opt (runners s) idx of
        None \<Rightarrow> (Some False, s)
      | Some p \<Rightarrow>
          if \<not> has_tracking e p then (Some False, s)
          else if \<not> has_motion e p name then (Some False, s)
          else (case sim s of
                  None \<Rightarrow> (None, s)
                | Some sm \<Rightarrow>
                    (let state = (if isMultiRobot s then readPolicyStateForRobot e s sm idx
                                  else readPolicyState e s sm);
                         (accepted, p') =
                           (if force \<and> has_startMotionFromCurrent e p
                            then (True, startMotionFromCurrent e p name state)
                            else tracking_requestMotion e p name state);
                         s1 = store_runner s idx p'
                     in (Some accepted,
                         if accepted \<and> idx < length (robotConfigs s1)
                         then s1\<lparr>robotConfigs := (robotConfigs s1)
                                 [idx := (robotConfigs s1 ! idx)\<lparr>cfg_motion := Some name\<rparr>]\<rparr>
                         else s1))))"

text \<open>The loop over all robots of a request with \<open>robotIndex === null\<close>.\<close>

fun apply_all ::
  "'p env \<Rightarrow> string \<Rightarrow> bool \<Rightarrow> nat list \<Rightarrow> bool \<Rightarrow> 'p demo \<Rightarrow> bool option \<times> 'p demo" where
  "apply_all e name force [] allAccepted s = (Some allAccepted, s)"
| "apply_all e name force (i # rest) allAccepted s =
     (case applyToRobot e name force i s of
        (None, s') \<Rightarrow> (None, s')
      | (Some ok, s') \<Rightarrow> apply_all e name force rest (allAccepted \<and> ok) s')"

text \<open>\<open>Math.max(0, Math.min(Math.floor(robotIndex), runners.length - 1))\<close> for a finite index.\<close>

definition clamp_index :: "real \<Rightarrow> nat \<Rightarrow> nat" where
  "clamp_index r n = nat (max 0 (min \<lfloor>r\<rfloor> (int n - 1)))"

definition requestMotion ::
  "'p env \<Rightarrow> jsarg \<Rightarrow> jsarg \<Rightarrow> bool \<Rightarrow> 'p demo \<Rightarrow> bool option \<times> 'p demo" where
  "requestMotion e name robotIndex force s =
     (case name of
        JString n \<Rightarrow>
          if n = [] \<or> runners s = [] then (Some False, s)
          else (case (case robotIndex of JUndefined \<Rightarrow> JNull | v \<Rightarrow> v) of
                  JNull \<Rightarrow>
                    (case apply_all e n force [0..<length (runners s)] True s of
                       (Some True, s') \<Rightarrow> (Some True, s'\<lparr>current_motion := n\<rparr>)
                     | res \<Rightarrow> res)
                | JNumber v \<Rightarrow>
                    (case v of
                       Fin r \<Rightarrow> applyToRobot e n force (clamp_index r (length (runners s))) s
                     | _ \<Rightarrow> (Some False, s))
                | _ \<Rightarrow> (Some False, s))
      | _ \<Rightarrow> (Some False, s))"

text \<open>
  The three grounds on which the claim lets a request fail before any robot is asked: the name
  is absent (falsy) or not a string, no runner is attached, or the index is neither \<open>null\<close>
  (or left out) nor a finite number.
\<close>

definition name_rejected :: "jsarg \<Rightarrow> bool" where
  "name_rejected name = (case name of JString n \<Rightarrow> n = [] | _ \<Rightarrow> True)"

definition index_rejected :: "jsarg \<Rightarrow> bool" where
  "index_rejected robotIndex =
     (case robotIndex of JUndefined \<Rightarrow> False | JNull \<Rightarrow> False
      | JNumber v \<Rightarrow> \<not> isFinite v | _ \<Rightarrow> True)"

text \<open>
  C10. A request with a non-empty string name, a runner attached and a finite index \<open>r\<close> is
  the call of \<open>applyToRobot\<close> at the index clamped into \<open>[0, number of runners - 1]\<close>: the
  floor of \<open>r\<close> when that is in range, \<open>0\<close> for a negative \<open>r\<close>, the last robot for an \<open>r\<close> past
  it. A request is answered \<open>false\<close> with no robot asked and nothing changed when the name is
  rejected, no runner is attached or the index is rejected; in every other case it goes to
  one robot (a finite index) or to all (\<open>null\<close> or no index).
\<close>

theorem requestMotion_clamps:
  "(\<not> name_rejected (JString n) \<and> runners s \<noteq> [] \<longrightarrow>
      requestMotion e (JString n) (JNumber (Fin r)) force s
        = applyToRobot e n force (clamp_index r (length (runners s))) s
      \<and> clamp_index r (length (runners s)) < length (runners s)
      \<and> (r < 0 \<longrightarrow> clamp_index r (length (runners s)) = 0)
      \<and> (real (length (runners s)) \<le> r \<longrightarrow> clamp_index r (length (runners s)) = length (runners s) - 1)
      \<and> (0 \<le> r \<and> r < real (length (runners s)) \<longrightarrow> clamp_index r (length (runners s)) = nat \<lfloor>r\<rfloor>))
   \<and> (name_rejected name \<or> runners s = [] \<or> index_rejected robotIndex \<longrightarrow>
      requestMotion e name robotIndex force s = (Some False, s))
   \<and> (\<not> name_rejected (JString n) \<and> runners s \<noteq> [] \<and> (robotIndex = JNull \<or> robotIndex = JUndefined) \<longrightarrow>
      requestMotion e (JString n) robotIndex force s
        = (case apply_all e n force [0..<length (runners s)] True s of
             (Some True, s') \<Rightarrow> (Some True, s'\<lparr>current_motion := n\<rparr>)
           | res \<Rightarrow> res))"
proof (intro conjI impI)
  assume a: "\<not> name_rejected (JString n) \<and> runners s \<noteq> []"
  then show "requestMotion e (JString n) (JNumber (Fin r)) force s
        = applyToRobot e n force (clamp_index r (length (runners s))) s"
    by (simp add: requestMotion_def name_rejected_def)
  from a have pos: "0 < length (runners s)" by simp
  then show "clamp_index r (length (runners s)) < length (runners s)"
    unfolding clamp_index_def by linarith
  show "clamp_index r (length (runners s)) = 0" if "r < 0"
  proof -
    from that have "\<lfloor>r\<rfloor> < 0" by linarith
    then show ?thesis unfolding clamp_index_def by linarith
  qed
  show "clamp_index r (length (runners s)) = length (runners s) - 1" if "real (length (runners s)) \<le> r"
  proof -
    from that have "int (length (runners s)) \<le> \<lfloor>r\<rfloor>" by linarith
    with pos show ?thesis unfolding clamp_index_def by linarith
  qed
  show "clamp_index r (length (runners s)) = nat \<lfloor>r\<rfloor>" if "0 \<le> r \<and> r < real (length (runners s))"
  proof -
    from that have "0 \<le> \<lfloor>r\<rfloor>" "\<lfloor>r\<rfloor> < int (length (runners s))" by linarith+
    then show ?thesis unfolding clamp_index_def by linarith
  qed
next
  assume "name_rejected name \<or> runners s = [] \<or> index_rejected robotIndex"
  then show "requestMotion e name robotIndex force s = (Some False, s)"
    by (auto simp: requestMotion_def name_rejected_def index_rejected_def
        split: jsarg.splits jsnum.splits)
next
  assume "\<not> name_rejected (JString n) \<and> runners s \<noteq> [] \<and> (robotIndex = JNull \<or> robotIndex = JUndefined)"
  then show "requestMotion e (JString n) robotIndex force s
        = (case apply_all e n force [0..<length (runners s)] True s of
             (Some True, s') \<Rightarrow> (Some True, s'\<lparr>current_motion := n\<rparr>)
           | res \<Rightarrow> res)"
    by (auto simp: requestMotion_def name_rejected_def)
qed


text \<open>An environment whose policies track motions: they know \<open>kick\<close> and accept it.\<close>

definition env_track :: "unit env" where
  "env_track = (env_of (\<lambda>st. Raises)) \<lparr> has_tracking := (\<lambda>p. True),
     has_motion := (\<lambda>p n. n = ''kick''), tracking_requestMotion := (\<lambda>p n st. (True, p)) \<rparr>"

theorem requestMotion_clamps_witness:
  "\<not> name_rejected (JString ''kick'') \<and> runners demo_two = [Some (), Some ()]
   \<and> clamp_index 7 (length (runners demo_two)) = 1
   \<and> clamp_index (- 3) (length (runners demo_two)) = 0
   \<and> requestMotion env_track (JString ''kick'') (JNumber (Fin 7)) False demo_two
       = applyToRobot env_track ''kick'' False 1 demo_two
   \<and> applyToRobot env_track ''kick'' False 1 demo_two = (Some True, demo_two)
   \<and> index_rejected (JNumber NaN)
   \<and> requestMotion env_track (JString ''kick'') (JNumber NaN) False demo_two = (Some False, demo_two)"
proof -
  have rn: "runners demo_two = [Some (), Some ()]"
    by (simp add: runners_def uses_policyRunners_def isMultiRobot_def demo_two_def)
  have h: "\<not> name_rejected (JString ''kick'') \<and> runners demo_two \<noteq> []"
    by (simp add: rn name_rejected_def)
  have c: "clamp_index 7 (length (runners demo_two)) = 1"
    "clamp_index (- 3) (length (runners demo_two)) = 0"
    by (simp_all add: rn clamp_index_def)
  have ap: "applyToRobot env_track ''kick'' False 1 demo_two = (Some True, demo_two)"
    unfolding applyToRobot_def rn
    by (simp add: nth_opt_def env_track_def env_of_def store_runner_def
        uses_policyRunners_def isMultiRobot_def demo_two_def)
  have ir: "index_rejected (JNumber NaN)" by (simp add: index_rejected_def)
  from requestMotion_clamps [of "''kick''" demo_two env_track 7 False "JString ''kick''" "JNumber NaN"]
    h ir
  have "requestMotion env_track (JString ''kick'') (JNumber (Fin 7)) False demo_two
       = applyToRobot env_track ''kick'' False (clamp_index 7 (length (runners demo_two))) demo_two"
    "requestMotion env_track (JString ''kick'') (JNumber NaN) False demo_two = (Some False, demo_two)"
    by simp_all
  with h rn c ap ir show ?thesis by simp
qed

section \<open>Scene synthesis: strings and patterns\<close>

text \<open>
  The scene description is a JavaScript string, modelled as a list of 8-bit characters (the
  code units \<open>0\<close> to \<open>255\<close>). \<open>indexOf\<close> yields the first position of a marker at or after a
  start position, \<open>None\<close> for \<open>-1\<close>.
\<close>

fun index_of :: "string \<Rightarrow> string \<Rightarrow> nat \<Rightarrow> nat option" where
  "index_of marker [] i = (if marker = [] then Some i else None)"
| "index_of marker (c # cs) i =
     (if prefix marker (c # cs) then Some i else index_of marker cs (Suc i))"

definition indexOf :: "string \<Rightarrow> string \<Rightarrow> nat \<Rightarrow> nat option" where
  "indexOf text marker start = index_of marker (drop start text) (min start (length text))"

text \<open>
  \<open>substring(a, b)\<close>: both positions are cut down to the length, and swapped when the first
  is the greater.
\<close>

definition substring :: "string \<Rightarrow> nat \<Rightarrow> nat \<Rightarrow> string" where
  "substring text a b =
     (let a' = min a (length text); b' = min b (length text)
      in take (max a' b' - min a' b') (drop (min a' b') text))"

text \<open>The white space of a regular expression's \<open>\s\<close>, among the 8-bit characters.\<close>

definition is_space :: "char \<Rightarrow> bool" where
  "is_space c = (c \<in> set [CHR '' '', CHR 0x09, CHR 0x0A, CHR 0x0B, CHR 0x0C, CHR 0x0D, CHR 0xA0])"

text \<open>
  \<open>text.replace(regex, replacement)\<close> with a global regular expression: the text is scanned
  from the left; where the pattern matches, the replacement is written and the scan goes on
  behind the match; elsewhere the character is kept. A pattern is given by its matcher, which
  for the text at a position yields the replacement and the text behind the match. Every
  pattern of the source consumes at least one character, which the scan checks to go on.
\<close>

function replace_all :: "(string \<Rightarrow> (string \<times> string) option) \<Rightarrow> string \<Rightarrow> string" where
  "replace_all m [] = []"
| "replace_all m (c # cs) =
     (case m (c # cs) of
        None \<Rightarrow> c # replace_all m cs
      | Some (rep, rest) \<Rightarrow>
          if length rest \<le> length cs then rep @ replace_all m rest
          else c # replace_all m cs)"
  by pat_completeness auto
termination
  by (relation "measure (\<lambda>(m, s). length s)") auto

text \<open>\<open>[^"]*"\<close>: the characters up to the next double quote, and the text behind it.\<close>

definition quoted :: "string \<Rightarrow> (string \<times> string) option" where
  "quoted s = (if CHR ''\"'' \<in> set s
               then Some (takeWhile (\<lambda>c. c \<noteq> CHR ''\"'') s, tl (dropWhile (\<lambda>c. c \<noteq> CHR ''\"'') s))
               else None)"

text \<open>A literal, then \<open>[^"]*"\<close>: the value and the text behind the closing quote.\<close>

definition match_value :: "string \<Rightarrow> string \<Rightarrow> (string \<times> string) option" where
  "match_value lit s = (if prefix lit s then quoted (drop (length lit) s) else None)"

text \<open>
  The pattern \<open><body name="PREFIXpelvis" pos="[^"]*"\<close> with its replacement
  \<open><body name="PREFIXpelvis" pos="X Y Z"\<close>; \<open>fmt\<close> prints a number as a template literal does.
\<close>

definition pos_text :: "(jsnum \<Rightarrow> string) \<Rightarrow> config \<Rightarrow> string" where
  "pos_text fmt c = fmt (cfg_x c) @ '' '' @ fmt (cfg_y c) @ '' '' @ fmt (cfg_z c)"

definition pelvis_pos :: "string \<Rightarrow> string" where
  "pelvis_pos pre = ''<body name=\"'' @ pre @ ''pelvis\" pos=\"''"

definition set_pos :: "(jsnum \<Rightarrow> string) \<Rightarrow> string \<Rightarrow> config \<Rightarrow> string \<Rightarrow> (string \<times> string) option" where
  "set_pos fmt pre c s =
     (case match_value (pelvis_pos pre) s of
        None \<Rightarrow> None
      | Some (v, rest) \<Rightarrow> Some (pelvis_pos pre @ pos_text fmt c @ ''\"'', rest))"

text \<open>
  The patterns \<open><TAG\s+name="([^"]*)"\<close> with the replacement \<open><TAG name="PREFIXname"\<close>. The
  greedy \<open>\s+\<close> takes the whole run of white space, since the \<open>n\<close> that follows is none.
\<close>

definition rename_tag :: "string \<Rightarrow> string \<Rightarrow> string \<Rightarrow> (string \<times> string) option" where
  "rename_tag tag pre s =
     (if prefix (CHR ''<'' # tag) s then
        (let r = drop (Suc (length tag)) s in
         if r \<noteq> [] \<and> is_space (hd r) then
           (case match_value ''name=\"'' (dropWhile is_space r) of
              None \<Rightarrow> None
            | Some (name, rest) \<Rightarrow> Some (CHR ''<'' # tag @ '' name=\"'' @ pre @ name @ ''\"'', rest))
         else None)
      else None)"

text \<open>
  The patterns \<open><TAG\s+([^>]*\s+)?ATTR="([^"]*)"\<close>. Behind the tag and its white space the
  optional group is tried first and greedily: it ends at the last white space before a \<open>>\<close>
  that is followed by \<open>ATTR="\<close> and, later, a closing quote. \<open>last_attr\<close> finds that place in
  the text behind the white space, and yields the group, the value and the rest.
\<close>

fun last_attr :: "string \<Rightarrow> string \<Rightarrow> (string \<times> string \<times> string) option" where
  "last_attr lit [] = None"
| "last_attr lit (c # cs) =
     (if c = CHR ''>'' then None
      else (case last_attr lit cs of
              Some (before, v, rest) \<Rightarrow> Some (c # before, v, rest)
            | None \<Rightarrow>
                if is_space c then
                  (case match_value lit cs of
                     None \<Rightarrow> None
                   | Some (v, rest) \<Rightarrow> Some ([c], v, rest))
                else None))"

definition find_attr :: "string \<Rightarrow> string \<Rightarrow> string \<Rightarrow> (string \<times> string \<times> string) option" where
  "find_attr tag attr s =
     (if prefix (CHR ''<'' # tag) s then
        (let r = drop (Suc (length tag)) s in
         if r \<noteq> [] \<and> is_space (hd r) then
           (let r' = dropWhile is_space r in
            case last_attr (attr @ ''=\"'') r' of
              Some res \<Rightarrow> Some res
            | None \<Rightarrow>
                (case match_value (attr @ ''=\"'') r' of
                   None \<Rightarrow> None
                 | Some (v, rest) \<Rightarrow> Some ([], v, rest)))
         else None)
      else None)"

text \<open>
  The replacement of these patterns leaves the match as it is when the value already starts
  with the prefix, and else writes \<open><TAG BEFOREATTR="PREFIXvalue"\<close>.
\<close>

definition prefix_attr :: "string \<Rightarrow> string \<Rightarrow> string \<Rightarrow> string \<Rightarrow> (string \<times> string) option" where
  "prefix_attr tag attr pre s =
     (case find_attr tag attr s of
        None \<Rightarrow> None
      | Some (before, v, rest) \<Rightarrow>
          if prefix pre v then Some (take (length s - length rest) s, rest)
          else Some (CHR ''<'' # tag @ '' '' @ before @ attr @ ''=\"'' @ pre @ v @ ''\"'', rest))"

text \<open>\<open>addPrefixToRobotBody\<close>\<close>

definition addPrefixToRobotBody :: "(jsnum \<Rightarrow> string) \<Rightarrow> string \<Rightarrow> string \<Rightarrow> config \<Rightarrow> string" where
  "addPrefixToRobotBody fmt bodyContent pre c =
     (if pre = [] then replace_all (set_pos fmt [] c) bodyContent
      else
        (let b1 = replace_all (rename_tag ''body'' pre) bodyContent;
             b2 = replace_all (rename_tag ''joint'' pre) b1;
             b3 = replace_all (rename_tag ''freejoint'' pre) b2;
             b4 = replace_all (rename_tag ''site'' pre) b3;
             b5 = replace_all (prefix_attr ''geom'' ''name'' pre) b4
         in replace_all (set_pos fmt pre c) b5))"

text \<open>\<open>addPrefixToMotors\<close>\<close>

definition addPrefixToMotors :: "string \<Rightarrow> string \<Rightarrow> string" where
  "addPrefixToMotors motorsContent pre =
     replace_all (prefix_attr ''motor'' ''joint'' pre)
       (replace_all (rename_tag ''motor'' pre) motorsContent)"

text \<open>
  The loop that finds the end of the anchor body: from the anchor's start it counts \<open><body\<close>
  up and \<open></body>\<close> down, and stops behind the \<open></body>\<close> that brings the depth to \<open>0\<close>. The
  flag \<open>foundPelvisStart\<close> is set in the first round, where the text starts with the anchor's
  \<open><body\<close>.
\<close>

fun find_body_end :: "string \<Rightarrow> int \<Rightarrow> nat \<Rightarrow> nat option" where
  "find_body_end [] bodyDepth i = None"
| "find_body_end (c # cs) bodyDepth i =
     (if prefix ''<body'' (c # cs) then find_body_end cs (bodyDepth + 1) (Suc i)
      else if prefix ''</body>'' (c # cs) then
        (if bodyDepth - 1 = 0 then Some (i + 7) else find_body_end cs (bodyDepth - 1) (Suc i))
      else find_body_end cs bodyDepth (Suc i))"

datatype response = Rejected | NotOk nat | Ok string

text \<open>
  The errors of the synthesis. The source throws \<open>Error\<close>s told apart by their messages:
  \<open>Robot configs cannot be empty\<close> (\<open>EmptyConfig\<close>), \<open>Maximum 11 robots allowed\<close>
  (\<open>TooManyRobots\<close>), \<open>Failed to load base XML\<close> with the status (\<open>TemplateLoadError\<close>),
  \<open>Could not find pelvis body in XML\<close> (\<open>AnchorNotFound\<close>), \<open>Could not find end of pelvis
  body\<close> (\<open>AnchorEndNotFound\<close>), \<open>Could not find actuator section\<close> (\<open>ActuatorBlockNotFound\<close>),
  \<open>Could not find motors in actuator section\<close> (\<open>MotorsNotFound\<close>), \<open>Could not find end of
  actuator section\<close> (\<open>ActuatorEndNotFound\<close>); \<open>FetchRejected\<close> is a \<open>fetch\<close> that throws.
\<close>

datatype synth_error =
    EmptyConfig | TooManyRobots | FetchRejected | TemplateLoadError nat | AnchorNotFound
  | AnchorEndNotFound | ActuatorBlockNotFound | MotorsNotFound | ActuatorEndNotFound

text \<open>\<open>index === 0 ? '' : `robot${index + 1}_`\<close>\<close>

definition robotId :: "nat \<Rightarrow> string" where
  "robotId index = (if index = 0 then [] else ''robot'' @ decimal (index + 1) @ ''_'')"

text \<open>
  \<open>generateMultiRobotXML\<close>, given what \<open>fetch\<close> of the base scene answers. With one config
  only the anchor's position is rewritten. Else the anchor body and the motors are cut out and
  the scene is put together from the text before the anchor, one body per config, the text
  between the anchor and the first motor, one group of motors per config, and the rest.
\<close>

definition generateMultiRobotXML ::
  "(jsnum \<Rightarrow> string) \<Rightarrow> response \<Rightarrow> config list \<Rightarrow> synth_error + string" where
  "generateMultiRobotXML fmt resp configs =
     (case resp of
        Rejected \<Rightarrow> Inl FetchRejected
      | NotOk status \<Rightarrow> Inl (TemplateLoadError status)
      | Ok xmlContent \<Rightarrow>
          if length configs = 1
          then Inr (replace_all (set_pos fmt [] (configs ! 0)) xmlContent)
          else
          (case indexOf xmlContent ''<body name=\"pelvis\"'' 0 of
             None \<Rightarrow> Inl AnchorNotFound
           | Some pelvisStartIdx \<Rightarrow>
          (case find_body_end (drop pelvisStartIdx xmlContent) 0 pelvisStartIdx of
             None \<Rightarrow> Inl AnchorEndNotFound
           | Some pelvisEndIdx \<Rightarrow>
          (case indexOf xmlContent ''<actuator>'' 0 of
             None \<Rightarrow> Inl ActuatorBlockNotFound
           | Some actuatorStartIdx \<Rightarrow>
          (case indexOf xmlContent ''<motor name=\"'' actuatorStartIdx of
             None \<Rightarrow> Inl MotorsNotFound
           | Some motorStartIdx \<Rightarrow>
          (case indexOf xmlContent ''</actuator>'' 0 of
             None \<Rightarrow> Inl ActuatorEndNotFound
           | Some actuatorEndIdx \<Rightarrow>
               (let pelvisBodyContent = substring xmlContent pelvisStartIdx pelvisEndIdx;
                    motorsContent = substring xmlContent motorStartIdx actuatorEndIdx
                in Inr (substring xmlContent 0 pelvisStartIdx
                     @ concat (map (\<lambda>(c, index).
                           addPrefixToRobotBody fmt pelvisBodyContent (robotId index) c
                             @ [CHR 0x0A] @ ''        '')
                         (zip configs [0..<length configs]))
                     @ substring xmlContent pelvisEndIdx motorStartIdx
                     @ concat (map (\<lambda>index.
                           if index = 0 then motorsContent
                           else addPrefixToMotors motorsContent (robotId index))
                         [0..<length configs])
                     @ drop actuatorEndIdx xmlContent))))))))"

section \<open>A single robot: only the position changes\<close>












definition cfg_a :: config where
  "cfg_a = \<lparr> cfg_x = Fin 1, cfg_y = Fin 2, cfg_z = Fin 3, cfg_motion = None \<rparr>"

definition fmt_a :: "jsnum \<Rightarrow> string" where
  "fmt_a v = (case v of Fin r \<Rightarrow> decimal (nat \<lfloor>r\<rfloor>) | _ \<Rightarrow> ''NaN'')"


section \<open>Generating the scene file\<close>

text \<open>
  \<open>generateMultiRobotScene\<close>: the two checks of the config list (\<open>None\<close> is a list that is
  \<open>null\<close> or \<open>undefined\<close>), then the synthesis, then the write of the scene file. An
  exception leaves the instance as it is at that point: the result is \<open>Inl\<close> with the error
  and the instance, or \<open>Inr\<close> with the instance after the write.
\<close>

definition generateMultiRobotScene ::
  "(jsnum \<Rightarrow> string) \<Rightarrow> response \<Rightarrow> config list option \<Rightarrow> 'p demo
     \<Rightarrow> synth_error \<times> 'p demo + 'p demo" where
  "generateMultiRobotScene fmt resp configs s =
     (case configs of
        None \<Rightarrow> Inl (EmptyConfig, s)
      | Some cs \<Rightarrow>
          if length cs = 0 then Inl (EmptyConfig, s)
          else if 11 < length cs then Inl (TooManyRobots, s)
          else (let s1 = s\<lparr>robotConfigs := cs\<rparr> in
                case generateMultiRobotXML fmt resp cs of
                  Inl err \<Rightarrow> Inl (err, s1)
                | Inr generatedXml \<Rightarrow> Inr (s1\<lparr>scene_file := Some generatedXml\<rparr>)))"

lemma generateMultiRobotXML_errors:
  "generateMultiRobotXML fmt resp cs = Inl err \<Longrightarrow> err \<noteq> EmptyConfig \<and> err \<noteq> TooManyRobots"
  by (auto simp: generateMultiRobotXML_def Let_def split: response.splits option.splits if_splits)

text \<open>
  C6. The scene generation fails with \<open>EmptyConfig\<close> exactly for a missing or empty config
  list and with \<open>TooManyRobots\<close> exactly for more than eleven configs (so for twelve), both
  before anything else happens: the instance is unchanged. For one to eleven configs neither
  check fails. Whenever the generation fails, with whatever error, the scene file of the
  physics engine's file system is as it was.
\<close>

theorem scene_preconditions:
  "(generateMultiRobotScene fmt resp configs s = Inl (EmptyConfig, s)
      \<longleftrightarrow> configs = None \<or> configs = Some [])
   \<and> (generateMultiRobotScene fmt resp configs s = Inl (TooManyRobots, s)
      \<longleftrightarrow> (\<exists>cs. configs = Some cs \<and> 11 < length cs))
   \<and> (\<forall>err s'. generateMultiRobotScene fmt resp configs s = Inl (err, s')
        \<longrightarrow> scene_file s' = scene_file s
          \<and> (err = EmptyConfig \<or> err = TooManyRobots \<longrightarrow> s' = s))
   \<and> (\<forall>cs. configs = Some cs \<and> 1 \<le> length cs \<and> length cs \<le> 11
        \<longrightarrow> generateMultiRobotScene fmt resp configs s
            = (case generateMultiRobotXML fmt resp cs of
                 Inl err \<Rightarrow> Inl (err, s\<lparr>robotConfigs := cs\<rparr>)
               | Inr xml \<Rightarrow> Inr (s\<lparr>robotConfigs := cs, scene_file := Some xml\<rparr>)))"
proof (cases configs)
  case None
  then show ?thesis by (simp add: generateMultiRobotScene_def)
next
  case (Some cs)
  show ?thesis
  proof (cases "length cs = 0 \<or> 11 < length cs")
    case True
    with Some show ?thesis by (auto simp: generateMultiRobotScene_def)
  next
    case False
    show ?thesis
    proof (cases "generateMultiRobotXML fmt resp cs")
      case (Inl err)
      with generateMultiRobotXML_errors [OF this] Some False show ?thesis
        by (auto simp: generateMultiRobotScene_def Let_def)
    next
      case (Inr xml)
      with Some False show ?thesis
        by (auto simp: generateMultiRobotScene_def Let_def)
    qed
  qed
qed


theorem scene_preconditions_witness:
  "generateMultiRobotScene fmt_a (NotOk 404) (Some []) demo_two = Inl (EmptyConfig, demo_two)
   \<and> 11 < length (replicate 12 cfg_a)
   \<and> generateMultiRobotScene fmt_a (NotOk 404) (Some (replicate 12 cfg_a)) demo_two
       = Inl (TooManyRobots, demo_two)
   \<and> generateMultiRobotScene fmt_a (NotOk 404) (Some [cfg_a]) demo_two
       = Inl (TemplateLoadError 404, demo_two\<lparr>robotConfigs := [cfg_a]\<rparr>)
   \<and> scene_file (demo_two\<lparr>robotConfigs := [cfg_a]\<rparr>) = scene_file demo_two"
proof -
  have a: "generateMultiRobotScene fmt_a (NotOk 404) (Some []) demo_two = Inl (EmptyConfig, demo_two)"
    using scene_preconditions [of fmt_a "NotOk 404" "Some []" demo_two] by simp
  have l: "11 < length (replicate 12 cfg_a)" by simp
  have b: "generateMultiRobotScene fmt_a (NotOk 404) (Some (replicate 12 cfg_a)) demo_two
       = Inl (TooManyRobots, demo_two)"
    using scene_preconditions [of fmt_a "NotOk 404" "Some (replicate 12 cfg_a)" demo_two] l by blast
  have x: "generateMultiRobotXML fmt_a (NotOk 404) [cfg_a] = Inl (TemplateLoadError 404)"
    by (simp add: generateMultiRobotXML_def)
  have c: "generateMultiRobotScene fmt_a (NotOk 404) (Some [cfg_a]) demo_two
       = Inl (TemplateLoadError 404, demo_two\<lparr>robotConfigs := [cfg_a]\<rparr>)"
    using scene_preconditions [of fmt_a "NotOk 404" "Some [cfg_a]" demo_two] x by simp
  from c scene_preconditions [of fmt_a "NotOk 404" "Some [cfg_a]" demo_two]
  have d: "scene_file (demo_two\<lparr>robotConfigs := [cfg_a]\<rparr>) = scene_file demo_two" by blast
  show ?thesis using a l b c d by blast
qed


section \<open>Scene descriptions as element trees\<close>

text \<open>
  The theorems on scenes with several robots speak of templates written in the way the
  patterns of the synthesis expect. Such a text is the rendering of element trees: an element
  has a tag and a list of attributes, each written as a space, the key, \<open>="\<close>, the value and
  \<open>"\<close>; an element without children is closed by \<open>/>\<close>; between elements stands text without
  \<open><\<close>.
\<close>

datatype xml =
    Text string
  | Leaf string "(string \<times> string) list"
  | Branch string "(string \<times> string) list" "xml list"

definition render_attr :: "string \<times> string \<Rightarrow> string" where
  "render_attr kv = CHR '' '' # fst kv @ ''=\"'' @ snd kv @ ''\"''"

definition render_attrs :: "(string \<times> string) list \<Rightarrow> string" where
  "render_attrs as = concat (map render_attr as)"




















section \<open>The patterns on opening tags\<close>







lemma render_attrs_Nil [simp]: "render_attrs [] = []"
  by (simp add: render_attrs_def)

















definition put_front :: "string \<Rightarrow> (string \<times> string \<times> string) option \<Rightarrow> (string \<times> string \<times> string) option" where
  "put_front a r = map_option (\<lambda>(b, v, rest). (a @ b, v, rest)) r"

lemma put_front_simps [simp]:
  "put_front a None = None" "put_front a (Some (b, v, rest)) = Some (a @ b, v, rest)"
  by (simp_all add: put_front_def)
















section \<open>Renaming the elements of a cloned anchor body\<close>



































section \<open>Cutting the anchor body and the motors out of the template\<close>






























section \<open>The names of the clones\<close>






























end
